theory Spec2Isabelle
  imports Complex_Main
begin

section \<open>The node graph of deepeval/metrics/dag/nodes.py\<close>

text \<open>
  The nodes of a graph are Python objects that refer to each other and are mutated in
  place (the join counter, the parent links, the outputs). The model keeps them in an
  explicit store: a list of cells, a node reference being the index of its cell.
  Exceptions are values of the type \<open>error\<close>.
\<close>

datatype error = ValueError | TypeError | AttributeError | KeyError | OtherError string

type_synonym nid = nat

text \<open>\<open>verdict: Union[str, bool]\<close>\<close>

datatype label = BoolLabel bool | StrLabel string

text \<open>
  The fields of a \<open>GEval\<close> object that \<open>VerdictNode._execute\<close> reads.
\<close>

record geval =
  ge_name :: string
  ge_evaluation_params :: "string list"
  ge_criteria :: "string option"
  ge_evaluation_steps :: "string list option"

text \<open>
  What a judge call with a schema returns: an instance of a schema class, \<open>Reason\<close>
  with its field \<open>reason\<close>, or a judgement verdict with its fields \<open>verdict\<close> and
  \<open>reason\<close>. A call without a schema returns a \<open>str\<close>.
\<close>

datatype reply = ReasonObj string | VerdictObj label string

text \<open>
  The four node classes. Field names carry the class initial, since record fields share
  one name space: \<open>v_parent\<close> is \<open>VerdictNode._parent\<close>, \<open>t_parents\<close> is
  \<open>TaskNode._parents\<close>, \<open>b_verdict\<close> is \<open>BinaryJudgementNode._verdict\<close>, and so on. The
  field \<open>_verbose_logs\<close> is never read or written by this module and is left out.
  \<open>n_verdict_options\<close> is the attribute \<open>_verdict_options\<close> that
  \<open>NonBinaryJudgementNode.__post_init__\<close> creates (\<open>None\<close> before that); it holds
  \<open>list(verdicts_set)\<close>, whose order Python leaves open, so the model keeps the set.
  \<open>_verdict_schema\<close> is the class built from these options and is not stored apart.
\<close>

record verdict_node =
  v_verdict :: label
  v_score :: "int option"
  v_g_eval :: "geval option"
  v_parent :: "nid option"

record task_node =
  t_instructions :: string
  t_output_label :: string
  t_children :: "nid list"
  t_evaluation_params :: "string list option"
  t_output :: "string option"
  t_parents :: "nid list option"

record binary_node =
  b_criteria :: string
  b_children :: "nid list"
  b_evaluation_params :: "string list option"
  b_verdict :: "reply option"
  b_parents :: "nid list option"

record non_binary_node =
  n_criteria :: string
  n_children :: "nid list"
  n_evaluation_params :: "string list option"
  n_verdict :: "reply option"
  n_parents :: "nid list option"
  n_verdict_options :: "string set option"

datatype node =
    VerdictNode verdict_node
  | TaskNode task_node
  | BinaryJudgementNode binary_node
  | NonBinaryJudgementNode non_binary_node

text \<open>\<open>BaseNode\<close>: every node object has the join counter \<open>_indegree\<close>.\<close>

record cell =
  indegree :: "int option"
  node :: node

type_synonym heap = "cell list"

definition lookup :: "heap \<Rightarrow> nid \<Rightarrow> cell option" where
  "lookup h i = (if i < length h then Some (h ! i) else None)"

subsection \<open>Parent links and the join counter\<close>

text \<open>
  \<open>set_parent\<close>: a node with the attribute \<open>_parent\<close> (a \<open>VerdictNode\<close>) has it
  overwritten; a node with \<open>_parents\<close> has the parent appended, the list being created
  on first use.
\<close>

definition append_parent :: "nid list option \<Rightarrow> nid \<Rightarrow> nid list option" where
  "append_parent ps p = Some ((case ps of None \<Rightarrow> [] | Some l \<Rightarrow> l) @ [p])"

fun set_parent :: "node \<Rightarrow> nid \<Rightarrow> node" where
  "set_parent (VerdictNode v) p = VerdictNode (v\<lparr>v_parent := Some p\<rparr>)"
| "set_parent (TaskNode t) p = TaskNode (t\<lparr>t_parents := append_parent (t_parents t) p\<rparr>)"
| "set_parent (BinaryJudgementNode b) p =
     BinaryJudgementNode (b\<lparr>b_parents := append_parent (b_parents b) p\<rparr>)"
| "set_parent (NonBinaryJudgementNode n) p =
     NonBinaryJudgementNode (n\<lparr>n_parents := append_parent (n_parents n) p\<rparr>)"

definition increment_indegree :: "cell \<Rightarrow> cell" where
  "increment_indegree c =
     (case indegree c of
        None \<Rightarrow> c\<lparr>indegree := Some 1\<rparr>
      | Some k \<Rightarrow> c\<lparr>indegree := Some (k + 1)\<rparr>)"

definition decrement_indegree :: "cell \<Rightarrow> cell" where
  "decrement_indegree c =
     (case indegree c of
        None \<Rightarrow> c\<lparr>indegree := Some 0\<rparr>
      | Some k \<Rightarrow> c\<lparr>indegree := Some (k - 1)\<rparr>)"

subsection \<open>Construction\<close>

definition is_VerdictNode :: "heap \<Rightarrow> nid \<Rightarrow> bool" where
  "is_VerdictNode h c =
     (case lookup h c of Some x \<Rightarrow> (case node x of VerdictNode _ \<Rightarrow> True | _ \<Rightarrow> False)
      | None \<Rightarrow> False)"

text \<open>\<open>child.verdict\<close> of a child that is a \<open>VerdictNode\<close>.\<close>

definition verdict_of :: "heap \<Rightarrow> nid \<Rightarrow> label option" where
  "verdict_of h c =
     (case lookup h c of Some x \<Rightarrow> (case node x of VerdictNode v \<Rightarrow> Some (v_verdict v) | _ \<Rightarrow> None)
      | None \<Rightarrow> None)"

text \<open>
  The loop \<open>for child in self.children: child.set_parent(self); increment_indegree(child)\<close>
  that ends every \<open>__post_init__\<close>. A child that is no node object has no \<open>set_parent\<close>.
\<close>

fun register_children :: "heap \<Rightarrow> nid \<Rightarrow> nid list \<Rightarrow> error + heap" where
  "register_children h self [] = Inr h"
| "register_children h self (c # cs) =
     (case lookup h c of
        None \<Rightarrow> Inl AttributeError
      | Some x \<Rightarrow>
          register_children
            (h[c := increment_indegree (x\<lparr>node := set_parent (node x) self\<rparr>)]) self cs)"

definition VerdictNode_post_init :: "verdict_node \<Rightarrow> error + unit" where
  "VerdictNode_post_init v =
     (if v_score v \<noteq> None \<and> v_g_eval v \<noteq> None then Inl ValueError
      else if v_score v = None \<and> v_g_eval v = None then Inl ValueError
      else (case v_score v of
              Some s \<Rightarrow> if \<not> (0 \<le> s \<and> s \<le> 10) then Inl ValueError else Inr ()
            | None \<Rightarrow> Inr ()))"

fun TaskNode_check_children :: "heap \<Rightarrow> nid list \<Rightarrow> error + unit" where
  "TaskNode_check_children h [] = Inr ()"
| "TaskNode_check_children h (c # cs) =
     (if is_VerdictNode h c then Inl ValueError else TaskNode_check_children h cs)"

definition TaskNode_post_init :: "heap \<Rightarrow> nid \<Rightarrow> task_node \<Rightarrow> error + heap" where
  "TaskNode_post_init h self t =
     (case TaskNode_check_children h (t_children t) of
        Inl e \<Rightarrow> Inl e
      | Inr _ \<Rightarrow> register_children h self (t_children t))"

text \<open>
  The first loop of \<open>BinaryJudgementNode.__post_init__\<close>: every child is a \<open>VerdictNode\<close>
  (else \<open>TypeError\<close>) whose verdict is a \<open>bool\<close> (else \<open>ValueError\<close>), child by child.
\<close>

fun Binary_check_children :: "heap \<Rightarrow> nid list \<Rightarrow> error + unit" where
  "Binary_check_children h [] = Inr ()"
| "Binary_check_children h (c # cs) =
     (case verdict_of h c of
        None \<Rightarrow> Inl TypeError
      | Some (StrLabel _) \<Rightarrow> Inl ValueError
      | Some (BoolLabel _) \<Rightarrow> Binary_check_children h cs)"

definition verdicts_of :: "heap \<Rightarrow> nid list \<Rightarrow> label option list" where
  "verdicts_of h cs = map (verdict_of h) cs"

definition BinaryJudgementNode_post_init :: "heap \<Rightarrow> nid \<Rightarrow> binary_node \<Rightarrow> error + heap" where
  "BinaryJudgementNode_post_init h self b =
     (if length (b_children b) \<noteq> 2 then Inl ValueError
      else case Binary_check_children h (b_children b) of
        Inl e \<Rightarrow> Inl e
      | Inr _ \<Rightarrow>
          (let verdicts = verdicts_of h (b_children b) in
           if count_list verdicts (Some (BoolLabel True)) \<noteq> 1
              \<or> count_list verdicts (Some (BoolLabel False)) \<noteq> 1
           then Inl ValueError
           else register_children h self (b_children b)))"

text \<open>
  The loop of \<open>NonBinaryJudgementNode.__post_init__\<close> with its accumulator \<open>verdicts_set\<close>;
  it returns the set it has built.
\<close>

fun NonBinary_check_children :: "heap \<Rightarrow> string set \<Rightarrow> nid list \<Rightarrow> error + string set" where
  "NonBinary_check_children h verdicts_set [] = Inr verdicts_set"
| "NonBinary_check_children h verdicts_set (c # cs) =
     (case verdict_of h c of
        None \<Rightarrow> Inl TypeError
      | Some (BoolLabel _) \<Rightarrow> Inl ValueError
      | Some (StrLabel s) \<Rightarrow>
          if s \<in> verdicts_set then Inl ValueError
          else NonBinary_check_children h (insert s verdicts_set) cs)"

text \<open>
  \<open>self\<close> is the node under construction, already in the store; its attribute
  \<open>_verdict_options\<close> is written before the children are registered.
\<close>

definition NonBinaryJudgementNode_post_init ::
  "heap \<Rightarrow> nid \<Rightarrow> non_binary_node \<Rightarrow> error + heap" where
  "NonBinaryJudgementNode_post_init h self n =
     (if n_children n = [] then Inl ValueError
      else case NonBinary_check_children h {} (n_children n) of
        Inl e \<Rightarrow> Inl e
      | Inr verdicts_set \<Rightarrow>
          register_children
            (h[self := (h ! self)\<lparr>node := NonBinaryJudgementNode
                                            (n\<lparr>n_verdict_options := Some verdicts_set\<rparr>)\<rparr>])
            self (n_children n))"

text \<open>
  The constructors: the dataclass \<open>__init__\<close> stores the arguments in a fresh object, the
  private fields at their defaults, and calls \<open>__post_init__\<close>. The new node is the next
  free index of the store.
\<close>

definition new_VerdictNode ::
  "heap \<Rightarrow> label \<Rightarrow> int option \<Rightarrow> geval option \<Rightarrow> error + nid \<times> heap" where
  "new_VerdictNode h verdict score g_eval =
     (let v = \<lparr>v_verdict = verdict, v_score = score, v_g_eval = g_eval, v_parent = None\<rparr> in
      case VerdictNode_post_init v of
        Inl e \<Rightarrow> Inl e
      | Inr _ \<Rightarrow> Inr (length h, h @ [\<lparr>indegree = None, node = VerdictNode v\<rparr>]))"

definition new_TaskNode ::
  "heap \<Rightarrow> string \<Rightarrow> string \<Rightarrow> nid list \<Rightarrow> string list option \<Rightarrow> error + nid \<times> heap" where
  "new_TaskNode h instructions output_label children evaluation_params =
     (let t = \<lparr>t_instructions = instructions, t_output_label = output_label,
               t_children = children, t_evaluation_params = evaluation_params,
               t_output = None, t_parents = None\<rparr>;
          self = length h in
      case TaskNode_post_init (h @ [\<lparr>indegree = None, node = TaskNode t\<rparr>]) self t of
        Inl e \<Rightarrow> Inl e
      | Inr h' \<Rightarrow> Inr (self, h'))"

definition new_BinaryJudgementNode ::
  "heap \<Rightarrow> string \<Rightarrow> nid list \<Rightarrow> string list option \<Rightarrow> error + nid \<times> heap" where
  "new_BinaryJudgementNode h criteria children evaluation_params =
     (let b = \<lparr>b_criteria = criteria, b_children = children,
               b_evaluation_params = evaluation_params, b_verdict = None, b_parents = None\<rparr>;
          self = length h in
      case BinaryJudgementNode_post_init
             (h @ [\<lparr>indegree = None, node = BinaryJudgementNode b\<rparr>]) self b of
        Inl e \<Rightarrow> Inl e
      | Inr h' \<Rightarrow> Inr (self, h'))"

definition new_NonBinaryJudgementNode ::
  "heap \<Rightarrow> string \<Rightarrow> nid list \<Rightarrow> string list option \<Rightarrow> error + nid \<times> heap" where
  "new_NonBinaryJudgementNode h criteria children evaluation_params =
     (let n = \<lparr>n_criteria = criteria, n_children = children,
               n_evaluation_params = evaluation_params, n_verdict = None, n_parents = None,
               n_verdict_options = None\<rparr>;
          self = length h in
      case NonBinaryJudgementNode_post_init
             (h @ [\<lparr>indegree = None, node = NonBinaryJudgementNode n\<rparr>]) self n of
        Inl e \<Rightarrow> Inl e
      | Inr h' \<Rightarrow> Inr (self, h'))"


section \<open>Execution\<close>

subsection \<open>The collaborators\<close>

text \<open>
  The classes and functions that nodes.py imports are not part of it; the model takes
  them as the fields of an environment, together with the test case of the pass.
  \<^item> An \<open>LLMTestCaseParams\<close> member is represented by its \<open>value\<close>, the name of the
    attribute of the test case; \<open>G_EVAL_PARAMS\<close> is a dict from members to labels.
  \<^item> An attribute value of the test case is observed through \<open>isinstance(_, ToolCall)\<close>,
    \<open>repr\<close> and the default formatting of an f-string (\<open>str\<close>).
  \<^item> The templates build the prompts.
  \<^item> \<open>metric.model\<close> is the judge. It is an object with a state of its own, so its
    answer may depend on the calls it has received before: \<open>model_generate\<close> is
    \<open>generate(prompt)\<close> and \<open>model_generate_schema\<close> is \<open>generate(prompt, schema=...)\<close>,
    both also given the earlier calls. Either raises or returns a result with a cost
    (a native model returns the pair; otherwise the cost is not looked at). The
    asynchronous \<open>a_generate\<close> of a stub is taken to compute what \<open>generate\<close> does.
  \<^item> \<open>trimAndLoadJson\<close> parses text into a dict, and \<open>schema_init\<close> is \<open>Schema(**data)\<close>.
  \<^item> \<open>GEval_measure\<close> builds the copied \<open>GEval\<close> from its arguments, runs \<open>measure\<close>
    and hands back its \<open>score\<close> and \<open>reason\<close>, with the calls the judge has seen.
  Python's floats are rendered as rationals: \<open>self.score / 10\<close> is the exact quotient.
\<close>

datatype schema = Reason | BinaryJudgementVerdict | NonBinaryJudgementVerdict "string set"

type_synonym json = "(string \<times> label) list"

type_synonym calls = "(string \<times> schema option) list"

record pyobj =
  is_ToolCall :: bool
  str_of :: string
  repr_of :: string

record g_eval_args =
  ga_name :: string
  ga_evaluation_params :: "string list"
  ga_verbose_mode :: bool
  ga_criteria :: "string option"
  ga_evaluation_steps :: "string list option"

record env =
  G_EVAL_PARAMS :: "string \<Rightarrow> string option"
  test_case :: "string \<Rightarrow> pyobj"
  generate_task_output :: "string \<Rightarrow> string \<Rightarrow> string"
  generate_binary_verdict :: "string \<Rightarrow> string \<Rightarrow> string"
  generate_non_binary_verdict :: "string \<Rightarrow> string \<Rightarrow> string set \<Rightarrow> string"
  generate_reason :: "string list \<Rightarrow> rat option \<Rightarrow> string \<Rightarrow> string"
  model_generate :: "calls \<Rightarrow> string \<Rightarrow> error + string \<times> rat"
  model_generate_schema :: "calls \<Rightarrow> string \<Rightarrow> schema \<Rightarrow> error + reply \<times> rat"
  trimAndLoadJson :: "string \<Rightarrow> error + json"
  schema_init :: "schema \<Rightarrow> json \<Rightarrow> error + reply"
  GEval_measure :: "calls \<Rightarrow> g_eval_args \<Rightarrow> (error + rat option \<times> string option) \<times> calls"

text \<open>
  The metric (\<open>BaseMetric\<close>): the sinks a pass writes to and the settings it reads.
  \<open>m_name\<close> is \<open>metric.__name__\<close>; \<open>model_calls\<close> is the state of \<open>metric.model\<close>.
\<close>

record metric =
  m_score :: "rat option"
  m_reason :: "string option"
  verbose_steps :: "string list"
  evaluation_cost :: "rat option"
  using_native_model :: bool
  include_reason :: bool
  verbose_mode :: bool
  m_name :: string
  model_calls :: calls

record state =
  heap :: heap
  metric :: metric

subsection \<open>Formatting\<close>

function str_nat :: "nat \<Rightarrow> string" where
  "str_nat n =
     (if n < 10 then [''0123456789'' ! n]
      else str_nat (n div 10) @ [''0123456789'' ! (n mod 10)])"
  by pat_completeness auto
termination
  by (relation "measure id") auto

declare str_nat.simps [simp del]

definition str_int :: "int \<Rightarrow> string" where
  "str_int i = (if i < 0 then ''-'' @ str_nat (nat (- i)) else str_nat (nat i))"

fun str_label :: "label \<Rightarrow> string" where
  "str_label (BoolLabel True) = ''True''"
| "str_label (BoolLabel False) = ''False''"
| "str_label (StrLabel s) = s"

text \<open>An optional string inside an f-string: \<open>None\<close> prints as \<open>None\<close>.\<close>

fun str_opt :: "string option \<Rightarrow> string" where
  "str_opt None = ''None''"
| "str_opt (Some s) = s"

text \<open>\<open>res.verdict\<close> and \<open>res.reason\<close>; a \<open>Reason\<close> object has no \<open>verdict\<close>.\<close>

fun get_verdict :: "reply option \<Rightarrow> error + label" where
  "get_verdict (Some (VerdictObj l r)) = Inr l"
| "get_verdict _ = Inl AttributeError"

fun get_reason :: "reply option \<Rightarrow> error + string" where
  "get_reason (Some (VerdictObj l r)) = Inr r"
| "get_reason (Some (ReasonObj r)) = Inr r"
| "get_reason None = Inl AttributeError"

definition judgement_log :: "string \<Rightarrow> nat \<Rightarrow> nat \<Rightarrow> string \<Rightarrow> reply option \<Rightarrow> int \<Rightarrow> error + string" where
  "judgement_log node_type underscore_multiple star_multiple criteria v depth =
     (case get_verdict v of
        Inl e \<Rightarrow> Inl e
      | Inr l \<Rightarrow>
          (case get_reason v of
             Inl e \<Rightarrow> Inl e
           | Inr r \<Rightarrow>
               Inr (replicate underscore_multiple CHR ''_'' @ ''\<newline>''
                    @ ''| '' @ node_type @ '' | Level == '' @ str_int depth @ '' |\<newline>''
                    @ replicate star_multiple CHR ''*'' @ ''\<newline>''
                    @ ''Criteria:\<newline>''
                    @ criteria @ ''\<newline>\<newline>''
                    @ ''Verdict: '' @ str_label l @ ''\<newline>''
                    @ ''Reason: '' @ r @ ''\<newline>'')))"

fun construct_node_verbose_log :: "node \<Rightarrow> int \<Rightarrow> error + string" where
  "construct_node_verbose_log (BinaryJudgementNode b) depth =
     judgement_log ''BinaryJudgementNode'' 34 48 (b_criteria b) (b_verdict b) depth"
| "construct_node_verbose_log (NonBinaryJudgementNode n) depth =
     judgement_log ''NonBinaryJudgementNode'' 37 56 (n_criteria n) (n_verdict n) depth"
| "construct_node_verbose_log (TaskNode t) depth =
     Inr (''______________________\<newline>''
          @ ''| TaskNode | Level == '' @ str_int depth @ '' |\<newline>''
          @ ''*******************************\<newline>''
          @ ''Instructions:\<newline>''
          @ t_instructions t @ ''\<newline>\<newline>''
          @ t_output_label t @ '':\<newline>'' @ str_opt (t_output t) @ ''\<newline>'')"
| "construct_node_verbose_log (VerdictNode v) depth =
     Inr (''________________________\<newline>''
          @ ''| VerdictNode | Level == '' @ str_int depth @ '' |\<newline>''
          @ ''**********************************\<newline>''
          @ ''Verdict: '' @ str_label (v_verdict v) @ ''\<newline>''
          @ ''Type: '' @ (if v_g_eval v \<noteq> None then ''GEval'' else ''Deterministic''))"

subsection \<open>The context text\<close>

text \<open>
  \<open>for parent in self._parents: if isinstance(parent, TaskNode): text += ...\<close>, the text
  being the accumulator. \<open>sep\<close> is what follows the parent's output: two newlines in
  \<open>TaskNode\<close> and \<open>BinaryJudgementNode\<close>, one in \<open>NonBinaryJudgementNode\<close>.
\<close>

fun parents_text :: "heap \<Rightarrow> string \<Rightarrow> string \<Rightarrow> nid list \<Rightarrow> string" where
  "parents_text h sep text [] = text"
| "parents_text h sep text (parent # ps) =
     (case lookup h parent of
        Some c \<Rightarrow>
          (case node c of
             TaskNode t \<Rightarrow>
               parents_text h sep
                 (text @ t_output_label t @ '':\<newline>'' @ str_opt (t_output t) @ sep) ps
           | _ \<Rightarrow> parents_text h sep text ps)
      | None \<Rightarrow> parents_text h sep text ps)"

text \<open>
  \<open>for param in self.evaluation_params\<close>: the value is read from the test case, a
  \<open>ToolCall\<close> is replaced by its \<open>repr\<close>, and the label is looked up in \<open>G_EVAL_PARAMS\<close>
  (a missing key raises).
\<close>

fun params_text :: "env \<Rightarrow> string \<Rightarrow> string list \<Rightarrow> error + string" where
  "params_text env text [] = Inr text"
| "params_text env text (param # ps) =
     (let v = test_case env param;
          val = (if is_ToolCall v then repr_of v else str_of v)
      in case G_EVAL_PARAMS env param of
           None \<Rightarrow> Inl KeyError
         | Some l \<Rightarrow> params_text env (text @ l @ '':\<newline>'' @ val @ ''\<newline>'') ps)"

subsection \<open>Calling the judge\<close>

definition call_generate :: "env \<Rightarrow> metric \<Rightarrow> string \<Rightarrow> (error + string \<times> rat) \<times> metric" where
  "call_generate env m prompt =
     (model_generate env (model_calls m) prompt,
      m\<lparr>model_calls := model_calls m @ [(prompt, None)]\<rparr>)"

definition call_generate_schema ::
  "env \<Rightarrow> metric \<Rightarrow> string \<Rightarrow> schema \<Rightarrow> (error + reply \<times> rat) \<times> metric" where
  "call_generate_schema env m prompt sch =
     (model_generate_schema env (model_calls m) prompt sch,
      m\<lparr>model_calls := model_calls m @ [(prompt, Some sch)]\<rparr>)"

text \<open>\<open>metric.evaluation_cost += cost\<close>; adding to \<open>None\<close> raises.\<close>

definition add_cost :: "metric \<Rightarrow> rat \<Rightarrow> error + metric" where
  "add_cost m cost =
     (case evaluation_cost m of
        None \<Rightarrow> Inl TypeError
      | Some c \<Rightarrow> Inr (m\<lparr>evaluation_cost := Some (c + cost)\<rparr>))"

text \<open>
  The block that every schema-constrained call site repeats (lines 166-175, 362-377,
  506-521 and their asynchronous copies): a native model is called once and its cost
  added; any other model is called with the schema, and on \<open>TypeError\<close>, and only then,
  called again with the same prompt and no schema, the text parsed by \<open>trimAndLoadJson\<close>
  and the schema class built from the data.
\<close>

definition generate_with_schema ::
  "env \<Rightarrow> metric \<Rightarrow> string \<Rightarrow> schema \<Rightarrow> (error + reply) \<times> metric" where
  "generate_with_schema env m prompt sch =
     (if using_native_model m then
        (case call_generate_schema env m prompt sch of
           (Inl e, m1) \<Rightarrow> (Inl e, m1)
         | (Inr (res, cost), m1) \<Rightarrow>
             (case add_cost m1 cost of
                Inl e \<Rightarrow> (Inl e, m1)
              | Inr m2 \<Rightarrow> (Inr res, m2)))
      else
        (case call_generate_schema env m prompt sch of
           (Inr (res, cost), m1) \<Rightarrow> (Inr res, m1)
         | (Inl e, m1) \<Rightarrow>
             if e \<noteq> TypeError then (Inl e, m1)
             else
               (case call_generate env m1 prompt of
                  (Inl e', m2) \<Rightarrow> (Inl e', m2)
                | (Inr (res, cost), m2) \<Rightarrow>
                    (case trimAndLoadJson env res of
                       Inl e' \<Rightarrow> (Inl e', m2)
                     | Inr data \<Rightarrow>
                         (case schema_init env sch data of
                            Inl e' \<Rightarrow> (Inl e', m2)
                          | Inr r \<Rightarrow> (Inr r, m2))))))"

text \<open>\<open>VerdictNode._generate_reason\<close> (and \<open>_a_generate_reason\<close>).\<close>

definition VerdictNode_generate_reason :: "env \<Rightarrow> metric \<Rightarrow> (error + string) \<times> metric" where
  "VerdictNode_generate_reason env m =
     (let prompt = generate_reason env (verbose_steps m) (m_score m) (m_name m) in
      case generate_with_schema env m prompt Reason of
        (Inl e, m1) \<Rightarrow> (Inl e, m1)
      | (Inr res, m1) \<Rightarrow> (get_reason (Some res), m1))"

subsection \<open>The four \<open>_execute\<close> methods\<close>

text \<open>
  A call of \<open>_execute\<close> yields the exception it raised, if any, the state it left, and
  the children it goes on to call at \<open>depth + 1\<close> (its last statement, the loop over
  \<open>self.children\<close>); the driver below makes these calls. \<open>c\<close> is the cell of \<open>self\<close>.
  The \<open>_a_execute\<close> of each class has the same statements, with \<open>await\<close> before the
  calls of the judge and \<open>asyncio.gather\<close> over the children in place of the loop, so
  one function stands for both methods and the driver tells them apart.

  The first two statements are the join check: the counter is decremented in place,
  and the call returns unless it is now \<open>0\<close>.
\<close>

type_synonym visit = "error option \<times> state \<times> nid list"

definition join :: "state \<Rightarrow> nid \<Rightarrow> cell \<Rightarrow> state" where
  "join st self c = st\<lparr>heap := (heap st)[self := decrement_indegree c]\<rparr>"

definition proceeds :: "cell \<Rightarrow> bool" where
  "proceeds c = (indegree (decrement_indegree c) = Some 0)"

definition set_node :: "state \<Rightarrow> nid \<Rightarrow> node \<Rightarrow> state" where
  "set_node st self nd =
     st\<lparr>heap := (heap st)[self := (heap st ! self)\<lparr>node := nd\<rparr>]\<rparr>"

definition append_log :: "metric \<Rightarrow> string \<Rightarrow> metric" where
  "append_log m entry = m\<lparr>verbose_steps := verbose_steps m @ [entry]\<rparr>"

text \<open>
  The gate of a \<open>VerdictNode\<close>: \<open>None\<close> when \<open>_parent\<close> is not a judgement node, else
  \<open>self._parent._verdict.verdict\<close> or the \<open>AttributeError\<close> of reading it.
\<close>

definition parent_verdict :: "heap \<Rightarrow> nid option \<Rightarrow> (error + label) option" where
  "parent_verdict h p =
     (case p of
        None \<Rightarrow> None
      | Some q \<Rightarrow>
          (case lookup h q of
             None \<Rightarrow> None
           | Some pc \<Rightarrow>
               (case node pc of
                  NonBinaryJudgementNode n \<Rightarrow> Some (get_verdict (n_verdict n))
                | BinaryJudgementNode b \<Rightarrow> Some (get_verdict (b_verdict b))
                | _ \<Rightarrow> None)))"

definition make_g_eval_args :: "geval \<Rightarrow> metric \<Rightarrow> g_eval_args" where
  "make_g_eval_args g m =
     (let truthy = (case ge_criteria g of None \<Rightarrow> False | Some s \<Rightarrow> s \<noteq> [])
      in \<lparr>ga_name = ge_name g,
          ga_evaluation_params = ge_evaluation_params g,
          ga_verbose_mode = verbose_mode m,
          ga_criteria = (if truthy then ge_criteria g else None),
          ga_evaluation_steps = (if truthy then None else ge_evaluation_steps g)\<rparr>)"

text \<open>
  Each method is its join check followed by its body, the statements after the check.
  \<open>VerdictNode_resolve\<close> is what the body of a \<open>VerdictNode\<close> does once the gate is
  passed as well.
\<close>

definition VerdictNode_resolve :: "env \<Rightarrow> state \<Rightarrow> verdict_node \<Rightarrow> int \<Rightarrow> visit" where
  "VerdictNode_resolve env st v depth =
     (case construct_node_verbose_log (VerdictNode v) depth of
        Inl e \<Rightarrow> (Some e, st, [])
      | Inr entry \<Rightarrow>
          (let m1 = append_log (metric st) entry in
           case v_g_eval v of
             Some g \<Rightarrow>
               (case GEval_measure env (model_calls m1) (make_g_eval_args g m1) of
                  (Inl e, cs) \<Rightarrow> (Some e, st\<lparr>metric := m1\<lparr>model_calls := cs\<rparr>\<rparr>, [])
                | (Inr (sc, rs), cs) \<Rightarrow>
                    (let m2 = m1\<lparr>model_calls := cs, m_score := sc\<rparr> in
                     (None,
                      st\<lparr>metric := (if include_reason m2 then m2\<lparr>m_reason := rs\<rparr> else m2)\<rparr>,
                      [])))
           | None \<Rightarrow>
               (case v_score v of
                  None \<Rightarrow> (Some TypeError, st\<lparr>metric := m1\<rparr>, [])
                | Some s \<Rightarrow>
                    (let m2 = m1\<lparr>m_score := Some (of_int s / 10)\<rparr> in
                     if include_reason m2 then
                       (case VerdictNode_generate_reason env m2 of
                          (Inl e, m3) \<Rightarrow> (Some e, st\<lparr>metric := m3\<rparr>, [])
                        | (Inr r, m3) \<Rightarrow> (None, st\<lparr>metric := m3\<lparr>m_reason := Some r\<rparr>\<rparr>, []))
                     else (None, st\<lparr>metric := m2\<rparr>, [])))))"

definition VerdictNode_body :: "env \<Rightarrow> state \<Rightarrow> nid \<Rightarrow> verdict_node \<Rightarrow> int \<Rightarrow> visit" where
  "VerdictNode_body env st1 self v depth =
     (case parent_verdict (heap st1) (v_parent v) of
        Some (Inl e) \<Rightarrow> (Some e, st1, [])
      | Some (Inr l) \<Rightarrow>
          if l \<noteq> v_verdict v then (None, st1, [])
          else VerdictNode_resolve env st1 v depth
      | None \<Rightarrow> VerdictNode_resolve env st1 v depth)"

definition VerdictNode_execute :: "env \<Rightarrow> state \<Rightarrow> nid \<Rightarrow> cell \<Rightarrow> verdict_node \<Rightarrow> int \<Rightarrow> visit" where
  "VerdictNode_execute env st self c v depth =
     (let st1 = join st self c in
      if \<not> proceeds c then (None, st1, [])
      else VerdictNode_body env st1 self v depth)"

definition TaskNode_body :: "env \<Rightarrow> state \<Rightarrow> nid \<Rightarrow> task_node \<Rightarrow> int \<Rightarrow> visit" where
  "TaskNode_body env st1 self t depth =
     (let text0 = (case t_parents t of
                     None \<Rightarrow> []
                   | Some ps \<Rightarrow> parents_text (heap st1) ''\<newline>\<newline>'' [] ps)
      in case t_evaluation_params t of
        None \<Rightarrow> (Some TypeError, st1, [])
      | Some params \<Rightarrow>
          (case params_text env text0 params of
             Inl e \<Rightarrow> (Some e, st1, [])
           | Inr text \<Rightarrow>
               (let prompt = generate_task_output env (t_instructions t) text in
                case call_generate env (metric st1) prompt of
                  (Inl e, m1) \<Rightarrow> (Some e, st1\<lparr>metric := m1\<rparr>, [])
                | (Inr (res, cost), m1) \<Rightarrow>
                    (case (if using_native_model m1 then add_cost m1 cost else Inr m1) of
                       Inl e \<Rightarrow> (Some e, st1\<lparr>metric := m1\<rparr>, [])
                     | Inr m2 \<Rightarrow>
                         (let t' = t\<lparr>t_output := Some res\<rparr>;
                              st2 = set_node (st1\<lparr>metric := m2\<rparr>) self (TaskNode t')
                          in case construct_node_verbose_log (TaskNode t') depth of
                               Inl e \<Rightarrow> (Some e, st2, [])
                             | Inr entry \<Rightarrow>
                                 (None, st2\<lparr>metric := append_log m2 entry\<rparr>,
                                  t_children t))))))"

definition TaskNode_execute ::
  "env \<Rightarrow> state \<Rightarrow> nid \<Rightarrow> cell \<Rightarrow> task_node \<Rightarrow> int \<Rightarrow> visit" where
  "TaskNode_execute env st self c t depth =
     (let st1 = join st self c in
      if \<not> proceeds c then (None, st1, [])
      else TaskNode_body env st1 self t depth)"

definition BinaryJudgementNode_body :: "env \<Rightarrow> state \<Rightarrow> nid \<Rightarrow> binary_node \<Rightarrow> int \<Rightarrow> visit" where
  "BinaryJudgementNode_body env st1 self b depth =
     (case b_parents b of
        None \<Rightarrow> (Some TypeError, st1, [])
      | Some ps \<Rightarrow>
          (let text0 = parents_text (heap st1) ''\<newline>\<newline>'' [] ps in
           case (case b_evaluation_params b of
                   None \<Rightarrow> Inr text0
                 | Some params \<Rightarrow> params_text env text0 params) of
             Inl e \<Rightarrow> (Some e, st1, [])
           | Inr text \<Rightarrow>
               (let prompt = generate_binary_verdict env (b_criteria b) text in
                case generate_with_schema env (metric st1) prompt BinaryJudgementVerdict of
                  (Inl e, m1) \<Rightarrow> (Some e, st1\<lparr>metric := m1\<rparr>, [])
                | (Inr res, m1) \<Rightarrow>
                    (let b' = b\<lparr>b_verdict := Some res\<rparr>;
                         st2 = set_node (st1\<lparr>metric := m1\<rparr>) self (BinaryJudgementNode b')
                     in case construct_node_verbose_log (BinaryJudgementNode b') depth of
                          Inl e \<Rightarrow> (Some e, st2, [])
                        | Inr entry \<Rightarrow>
                            (None, st2\<lparr>metric := append_log m1 entry\<rparr>, b_children b)))))"

definition BinaryJudgementNode_execute ::
  "env \<Rightarrow> state \<Rightarrow> nid \<Rightarrow> cell \<Rightarrow> binary_node \<Rightarrow> int \<Rightarrow> visit" where
  "BinaryJudgementNode_execute env st self c b depth =
     (let st1 = join st self c in
      if \<not> proceeds c then (None, st1, [])
      else BinaryJudgementNode_body env st1 self b depth)"

definition NonBinaryJudgementNode_body :: "env \<Rightarrow> state \<Rightarrow> nid \<Rightarrow> non_binary_node \<Rightarrow> int \<Rightarrow> visit" where
  "NonBinaryJudgementNode_body env st1 self n depth =
     (case n_parents n of
        None \<Rightarrow> (Some TypeError, st1, [])
      | Some ps \<Rightarrow>
          (let text0 = parents_text (heap st1) ''\<newline>'' [] ps in
           case (case n_evaluation_params n of
                   None \<Rightarrow> Inr text0
                 | Some params \<Rightarrow> params_text env text0 params) of
             Inl e \<Rightarrow> (Some e, st1, [])
           | Inr text \<Rightarrow>
               (case n_verdict_options n of
                  None \<Rightarrow> (Some AttributeError, st1, [])
                | Some options \<Rightarrow>
                    (let prompt = generate_non_binary_verdict env (n_criteria n) text options in
                     case generate_with_schema env (metric st1) prompt
                            (NonBinaryJudgementVerdict options) of
                       (Inl e, m1) \<Rightarrow> (Some e, st1\<lparr>metric := m1\<rparr>, [])
                     | (Inr res, m1) \<Rightarrow>
                         (let n' = n\<lparr>n_verdict := Some res\<rparr>;
                              st2 = set_node (st1\<lparr>metric := m1\<rparr>) self
                                      (NonBinaryJudgementNode n')
                          in case construct_node_verbose_log (NonBinaryJudgementNode n') depth of
                               Inl e \<Rightarrow> (Some e, st2, [])
                             | Inr entry \<Rightarrow>
                                 (None, st2\<lparr>metric := append_log m1 entry\<rparr>,
                                  n_children n))))))"

definition NonBinaryJudgementNode_execute ::
  "env \<Rightarrow> state \<Rightarrow> nid \<Rightarrow> cell \<Rightarrow> non_binary_node \<Rightarrow> int \<Rightarrow> visit" where
  "NonBinaryJudgementNode_execute env st self c n depth =
     (let st1 = join st self c in
      if \<not> proceeds c then (None, st1, [])
      else NonBinaryJudgementNode_body env st1 self n depth)"

text \<open>
  The call \<open>node._execute(metric, test_case, depth)\<close>, dispatched on the class of the
  object; a reference to no node object has no such method.
\<close>

definition visit :: "env \<Rightarrow> state \<Rightarrow> nid \<Rightarrow> int \<Rightarrow> visit" where
  "visit env st self depth =
     (case lookup (heap st) self of
        None \<Rightarrow> (Some AttributeError, st, [])
      | Some c \<Rightarrow>
          (case node c of
             VerdictNode v \<Rightarrow> VerdictNode_execute env st self c v depth
           | TaskNode t \<Rightarrow> TaskNode_execute env st self c t depth
           | BinaryJudgementNode b \<Rightarrow> BinaryJudgementNode_execute env st self c b depth
           | NonBinaryJudgementNode n \<Rightarrow> NonBinaryJudgementNode_execute env st self c n depth))"

text \<open>Whether a call gets past the join check, read off the state before it.\<close>

definition enters :: "state \<Rightarrow> nid \<Rightarrow> bool" where
  "enters st self = (case lookup (heap st) self of None \<Rightarrow> False | Some c \<Rightarrow> proceeds c)"

subsection \<open>A pass over the graph\<close>

text \<open>
  A node can still get past its join check while its counter is \<open>None\<close> or at least
  \<open>1\<close>. Every call that gets past the check leaves the counter at \<open>0\<close>, and nothing but
  the join check writes the counter, so the number of such nodes bounds the calls that
  fan out to children.
\<close>

fun live :: "int option \<Rightarrow> bool" where
  "live None = True"
| "live (Some k) = (1 \<le> k)"

definition unspent :: "state \<Rightarrow> nat" where
  "unspent st = length (filter live (map indegree (heap st)))"

lemma filter_update_le:
  "n < length xs \<Longrightarrow> (P y \<Longrightarrow> P (xs ! n)) \<Longrightarrow> length (filter P (xs[n := y])) \<le> length (filter P xs)"
proof (induction xs arbitrary: n)
  case Nil then show ?case by simp
next
  case (Cons x xs) then show ?case by (cases n) auto
qed

lemma filter_update_less:
  "n < length xs \<Longrightarrow> P (xs ! n) \<Longrightarrow> \<not> P y \<Longrightarrow> length (filter P (xs[n := y])) < length (filter P xs)"
proof (induction xs arbitrary: n)
  case Nil then show ?case by simp
next
  case (Cons x xs)
  show ?case
  proof (cases n)
    case 0
    with Cons.prems show ?thesis by simp
  next
    case (Suc k)
    with Cons.prems have "length (filter P (xs[k := y])) < length (filter P xs)"
      by (intro Cons.IH) simp_all
    with Suc show ?thesis by simp
  qed
qed

definition indegrees :: "state \<Rightarrow> int option list" where
  "indegrees st = map indegree (heap st)"

lemma indegrees_metric [simp]: "indegrees (st\<lparr>metric := m\<rparr>) = indegrees st"
  by (simp add: indegrees_def)

lemma indegrees_set_node [simp]: "indegrees (set_node st n nd) = indegrees st"
proof -
  have "(map indegree (heap st))[n := indegree (heap st ! n)] = map indegree (heap st)"
    by (metis list_update_id map_update)
  then show ?thesis
    by (simp add: indegrees_def set_node_def map_update)
qed

lemma indegrees_join: "indegrees (join st n c) = (indegrees st)[n := indegree (decrement_indegree c)]"
  by (simp add: indegrees_def join_def map_update)

lemma VerdictNode_resolve_indegrees:
  "indegrees (fst (snd (VerdictNode_resolve env st v d))) = indegrees st"
  by (simp add: VerdictNode_resolve_def Let_def split: sum.splits option.splits prod.splits)

lemma VerdictNode_execute_indegrees:
  "indegrees (fst (snd (VerdictNode_execute env st n c v d))) = indegrees (join st n c)"
  by (simp add: VerdictNode_execute_def VerdictNode_body_def Let_def VerdictNode_resolve_indegrees
      split: sum.splits option.splits)

lemma TaskNode_execute_indegrees:
  "indegrees (fst (snd (TaskNode_execute env st n c t d))) = indegrees (join st n c)"
  by (simp add: TaskNode_execute_def TaskNode_body_def Let_def
      split: sum.splits option.splits prod.splits)

lemma BinaryJudgementNode_execute_indegrees:
  "indegrees (fst (snd (BinaryJudgementNode_execute env st n c t d))) = indegrees (join st n c)"
  by (simp add: BinaryJudgementNode_execute_def BinaryJudgementNode_body_def Let_def
      split: sum.splits option.splits prod.splits)

lemma NonBinaryJudgementNode_execute_indegrees:
  "indegrees (fst (snd (NonBinaryJudgementNode_execute env st n c t d))) = indegrees (join st n c)"
  by (simp add: NonBinaryJudgementNode_execute_def NonBinaryJudgementNode_body_def Let_def
      split: sum.splits option.splits prod.splits)

lemma visit_indegrees:
  "lookup (heap st) n = Some c \<Longrightarrow> indegrees (fst (snd (visit env st n d))) = indegrees (join st n c)"
  by (simp add: visit_def VerdictNode_execute_indegrees TaskNode_execute_indegrees
      BinaryJudgementNode_execute_indegrees NonBinaryJudgementNode_execute_indegrees split: node.splits)

lemma visit_dangling:
  "lookup (heap st) n = None \<Longrightarrow> visit env st n d = (Some AttributeError, st, [])"
  by (simp add: visit_def)

lemma visit_waits:
  "lookup (heap st) n = Some c \<Longrightarrow> \<not> proceeds c \<Longrightarrow> visit env st n d = (None, join st n c, [])"
  by (simp add: visit_def VerdictNode_execute_def TaskNode_execute_def
      BinaryJudgementNode_execute_def NonBinaryJudgementNode_execute_def split: node.splits)

lemma enters_unspent:
  assumes "lookup (heap st) n = Some c" "proceeds c"
  shows "unspent (fst (snd (visit env st n d))) < unspent st"
proof -
  from assms(1) have n: "n < length (heap st)" and c: "heap st ! n = c"
    by (auto simp: lookup_def split: if_splits)
  from assms(2) have "live (indegree c)" "\<not> live (indegree (decrement_indegree c))"
    by (auto simp: proceeds_def decrement_indegree_def split: option.splits)
  with n c have "length (filter live ((indegrees st)[n := indegree (decrement_indegree c)]))
      < length (filter live (indegrees st))"
    by (intro filter_update_less) (simp_all add: indegrees_def)
  with visit_indegrees [OF assms(1)] show ?thesis
    by (simp add: unspent_def indegrees_join flip: indegrees_def)
qed

lemma waits_unspent:
  assumes "lookup (heap st) n = Some c" "\<not> proceeds c"
  shows "unspent (join st n c) \<le> unspent st"
proof -
  from assms(1) have n: "n < length (heap st)" and c: "heap st ! n = c"
    by (auto simp: lookup_def split: if_splits)
  from assms(2) have "live (indegree (decrement_indegree c)) \<Longrightarrow> live (indegree c)"
    by (auto simp: proceeds_def decrement_indegree_def split: option.splits)
  with n c have "length (filter live ((indegrees st)[n := indegree (decrement_indegree c)]))
      \<le> length (filter live (indegrees st))"
    by (intro filter_update_le) (simp_all add: indegrees_def)
  then show ?thesis
    by (simp add: unspent_def indegrees_join flip: indegrees_def)
qed

lemma visit_measure:
  assumes "visit env st n d = (None, st', cs)"
  shows "unspent st' < unspent st \<or> (unspent st' \<le> unspent st \<and> cs = [])"
proof (cases "lookup (heap st) n")
  case None
  with assms show ?thesis by (simp add: visit_dangling)
next
  case (Some c)
  show ?thesis
  proof (cases "proceeds c")
    case True
    from enters_unspent [OF Some True, of env d] assms show ?thesis by simp
  next
    case False
    from visit_waits [OF Some False, of env d] assms waits_unspent [OF Some False]
    show ?thesis by auto
  qed
qed

text \<open>
  The recursion of \<open>_execute\<close> through the graph is run by a driver that holds the calls
  still to be made, each a node with its depth, and makes the first of them.
  \<open>_execute\<close> ends with \<open>for children in self.children: children._execute(...)\<close>: the
  calls are made in order, each with all the calls it makes itself completed before the
  next (\<open>Sequential\<close>: the new calls go in front of the calls still to be made).
  \<open>_a_execute\<close> ends with \<open>await asyncio.gather(*(child._a_execute(...) ...))\<close>: gather
  wraps every call in a task, and the event loop starts the tasks in the order of their
  creation once the awaiting caller is suspended, so the new calls come after the calls
  already scheduled (\<open>Parallel\<close>). The judge being a stub whose coroutines complete
  without suspending, a task runs from its join check to its own gather in one piece,
  and nothing follows a gather but the return. When a call raises, the sequential
  pass is over; the parallel pass is modelled up to that point only.

  A pass yields the exception raised, if any, the final state, and the nodes whose
  calls got past the join check, in order (kept for stating properties about the pass;
  the program does not record it).
\<close>

datatype strategy = Sequential | Parallel

fun schedule :: "strategy \<Rightarrow> (nid \<times> int) list \<Rightarrow> (nid \<times> int) list \<Rightarrow> (nid \<times> int) list" where
  "schedule Sequential new rest = new @ rest"
| "schedule Parallel new rest = rest @ new"

function run :: "env \<Rightarrow> strategy \<Rightarrow> state \<Rightarrow> (nid \<times> int) list \<Rightarrow> error option \<times> state \<times> nid list" where
  "run env s st [] = (None, st, [])"
| "run env s st ((n, d) # rest) =
     (case visit env st n d of
        (Some e, st', cs) \<Rightarrow> (Some e, st', if enters st n then [n] else [])
      | (None, st', cs) \<Rightarrow>
          (case run env s st' (schedule s (map (\<lambda>c. (c, d + 1)) cs) rest) of
             (r, st'', tr) \<Rightarrow> (r, st'', (if enters st n then [n] else []) @ tr)))"
  by pat_completeness auto
termination
proof (relation "measures [\<lambda>(env, s, st, pending). unspent st, \<lambda>(env, s, st, pending). length pending]")
  show "wf (measures [\<lambda>(env, s, st, pending). unspent st, \<lambda>(env, s, st, pending). length pending])"
    by simp
next
  fix env s st n d rest x y st' cs
  assume "(x, y) = visit env st n d" "x = None" "(st', cs) = y"
  then have "visit env st n d = (None, st', cs)" by simp
  from visit_measure [OF this]
  show "((env, s, st', schedule s (map (\<lambda>c. (c, d + 1)) cs) rest), env, s, st, (n, d) # rest)
    \<in> measures [\<lambda>(env, s, st, pending). unspent st, \<lambda>(env, s, st, pending). length pending]"
    by (cases s) auto
qed

text \<open>\<open>start._execute(metric, test_case, depth)\<close> and \<open>start._a_execute(...)\<close>.\<close>

definition execute :: "env \<Rightarrow> state \<Rightarrow> nid \<Rightarrow> int \<Rightarrow> error option \<times> state \<times> nid list" where
  "execute env st start depth = run env Sequential st [(start, depth)]"

definition a_execute :: "env \<Rightarrow> state \<Rightarrow> nid \<Rightarrow> int \<Rightarrow> error option \<times> state \<times> nid list" where
  "a_execute env st start depth = run env Parallel st [(start, depth)]"

text \<open>The body of a node, by its class.\<close>

fun node_body :: "env \<Rightarrow> state \<Rightarrow> nid \<Rightarrow> node \<Rightarrow> int \<Rightarrow> visit" where
  "node_body env st1 self (VerdictNode v) depth = VerdictNode_body env st1 self v depth"
| "node_body env st1 self (TaskNode t) depth = TaskNode_body env st1 self t depth"
| "node_body env st1 self (BinaryJudgementNode b) depth = BinaryJudgementNode_body env st1 self b depth"
| "node_body env st1 self (NonBinaryJudgementNode n) depth =
     NonBinaryJudgementNode_body env st1 self n depth"

section \<open>An example graph\<close>

text \<open>
  A \<open>TaskNode\<close> with the instructions \<open>summarize\<close> and the parameter \<open>input\<close>, whose
  only child is a \<open>BinaryJudgementNode\<close> with the criteria \<open>length\<close> and the verdict
  children \<open>True\<close> (score 10) and \<open>False\<close> (score 0); the test case has the input
  \<open>hello\<close>, and the judge is a stub that answers every call alike, with the verdict
  \<open>True\<close> where a schema is given.
\<close>

definition example_env :: env where
  "example_env =
     \<lparr>G_EVAL_PARAMS = (\<lambda>p. if p = ''input'' then Some ''Input'' else None),
      test_case = (\<lambda>p. \<lparr>is_ToolCall = False, str_of = ''hello'', repr_of = ''hello''\<rparr>),
      generate_task_output = (\<lambda>instructions text. instructions @ ''|'' @ text),
      generate_binary_verdict = (\<lambda>criteria text. criteria @ ''|'' @ text),
      generate_non_binary_verdict = (\<lambda>criteria text options. criteria @ ''|'' @ text),
      generate_reason = (\<lambda>steps score name. name),
      model_generate = (\<lambda>calls prompt. Inr (''hi'', 0)),
      model_generate_schema = (\<lambda>calls prompt sch. Inr (VerdictObj (BoolLabel True) ''ok'', 0)),
      trimAndLoadJson = (\<lambda>text. Inl ValueError),
      schema_init = (\<lambda>sch data. Inl ValueError),
      GEval_measure = (\<lambda>calls args. (Inl (OtherError ''unused''), calls))\<rparr>"

definition example_metric :: metric where
  "example_metric =
     \<lparr>m_score = None, m_reason = None, verbose_steps = [], evaluation_cost = None,
      using_native_model = False, include_reason = False, verbose_mode = False,
      m_name = ''DAG'', model_calls = []\<rparr>"

definition example_heap :: heap where
  "example_heap =
     [\<lparr>indegree = Some 1,
       node = VerdictNode \<lparr>v_verdict = BoolLabel True, v_score = Some 10, v_g_eval = None,
                           v_parent = Some 2\<rparr>\<rparr>,
      \<lparr>indegree = Some 1,
       node = VerdictNode \<lparr>v_verdict = BoolLabel False, v_score = Some 0, v_g_eval = None,
                           v_parent = Some 2\<rparr>\<rparr>,
      \<lparr>indegree = Some 1,
       node = BinaryJudgementNode \<lparr>b_criteria = ''length'', b_children = [0, 1],
                                   b_evaluation_params = None, b_verdict = None,
                                   b_parents = Some [3]\<rparr>\<rparr>,
      \<lparr>indegree = None,
       node = TaskNode \<lparr>t_instructions = ''summarize'', t_output_label = ''Summary'',
                        t_children = [2], t_evaluation_params = Some [''input''],
                        t_output = None, t_parents = None\<rparr>\<rparr>]"

definition example_state :: state where
  "example_state = \<lparr>heap = example_heap, metric = example_metric\<rparr>"

text \<open>The constructors build this store, bottom-up.\<close>

lemma example_heap_built:
  "(case new_VerdictNode [] (BoolLabel True) (Some 10) None of
      Inr (v1, h1) \<Rightarrow>
        (case new_VerdictNode h1 (BoolLabel False) (Some 0) None of
           Inr (v2, h2) \<Rightarrow>
             (case new_BinaryJudgementNode h2 ''length'' [v1, v2] None of
                Inr (b, h3) \<Rightarrow>
                  (case new_TaskNode h3 ''summarize'' ''Summary'' [b] (Some [''input'']) of
                     Inr (t, h4) \<Rightarrow> Some (t, h4)
                   | Inl e \<Rightarrow> None)
              | Inl e \<Rightarrow> None)
         | Inl e \<Rightarrow> None)
    | Inl e \<Rightarrow> None) = Some (3, example_heap)"
  by (simp add: new_VerdictNode_def VerdictNode_post_init_def new_BinaryJudgementNode_def
      BinaryJudgementNode_post_init_def verdicts_of_def verdict_of_def lookup_def
      new_TaskNode_def TaskNode_post_init_def is_VerdictNode_def example_heap_def
      increment_indegree_def append_parent_def Let_def nth_append)


section \<open>Graphs and notions for the properties\<close>

text \<open>Reading a child back from the store, for stating what construction did to it.\<close>

definition indegree_of :: "heap \<Rightarrow> nid \<Rightarrow> int option" where
  "indegree_of h c = (case lookup h c of Some x \<Rightarrow> indegree x | None \<Rightarrow> None)"

definition parent_of :: "heap \<Rightarrow> nid \<Rightarrow> nid option" where
  "parent_of h c =
     (case lookup h c of
        Some x \<Rightarrow> (case node x of VerdictNode v \<Rightarrow> v_parent v | _ \<Rightarrow> None)
      | None \<Rightarrow> None)"

definition verdict_options_of :: "heap \<Rightarrow> nid \<Rightarrow> string set option" where
  "verdict_options_of h c =
     (case lookup h c of
        Some x \<Rightarrow> (case node x of NonBinaryJudgementNode n \<Rightarrow> n_verdict_options n | _ \<Rightarrow> None)
      | None \<Rightarrow> None)"

text \<open>The string labels of a list of children, in order.\<close>

definition str_labels :: "heap \<Rightarrow> nid list \<Rightarrow> string list" where
  "str_labels h cs =
     concat (map (\<lambda>c. case verdict_of h c of Some (StrLabel s) \<Rightarrow> [s] | _ \<Rightarrow> []) cs)"

text \<open>A child cell after one round of the registration loop.\<close>

definition registered :: "nid \<Rightarrow> cell \<Rightarrow> cell" where
  "registered self x = increment_indegree (x\<lparr>node := set_parent (node x) self\<rparr>)"

text \<open>Three fresh \<open>VerdictNode\<close>s with boolean verdicts, and four with string verdicts.\<close>

definition verdicts_heap :: heap where
  "verdicts_heap =
     [\<lparr>indegree = None,
       node = VerdictNode \<lparr>v_verdict = BoolLabel True, v_score = Some 10, v_g_eval = None,
                           v_parent = None\<rparr>\<rparr>,
      \<lparr>indegree = None,
       node = VerdictNode \<lparr>v_verdict = BoolLabel False, v_score = Some 0, v_g_eval = None,
                           v_parent = None\<rparr>\<rparr>,
      \<lparr>indegree = None,
       node = VerdictNode \<lparr>v_verdict = BoolLabel True, v_score = Some 5, v_g_eval = None,
                           v_parent = None\<rparr>\<rparr>]"

definition labels_heap :: heap where
  "labels_heap =
     [\<lparr>indegree = None,
       node = VerdictNode \<lparr>v_verdict = StrLabel ''a'', v_score = Some 10, v_g_eval = None,
                           v_parent = None\<rparr>\<rparr>,
      \<lparr>indegree = None,
       node = VerdictNode \<lparr>v_verdict = StrLabel ''b'', v_score = Some 5, v_g_eval = None,
                           v_parent = None\<rparr>\<rparr>,
      \<lparr>indegree = None,
       node = VerdictNode \<lparr>v_verdict = StrLabel ''c'', v_score = Some 0, v_g_eval = None,
                           v_parent = None\<rparr>\<rparr>,
      \<lparr>indegree = None,
       node = VerdictNode \<lparr>v_verdict = StrLabel ''a'', v_score = Some 1, v_g_eval = None,
                           v_parent = None\<rparr>\<rparr>]"

text \<open>
  What the retry of a rejected schema call comes to: the judge, having seen the call
  with the schema, is called with the prompt alone, its text is parsed and the schema
  class is built from the data.
\<close>

definition fallback_result :: "env \<Rightarrow> calls \<Rightarrow> string \<Rightarrow> schema \<Rightarrow> error + reply" where
  "fallback_result env cs prompt sch =
     (case model_generate env (cs @ [(prompt, Some sch)]) prompt of
        Inl e \<Rightarrow> Inl e
      | Inr (res, cost) \<Rightarrow>
          (case trimAndLoadJson env res of
             Inl e \<Rightarrow> Inl e
           | Inr data \<Rightarrow> schema_init env sch data))"

text \<open>
  The context text of a judgement node: the blocks of its parents, then those of its
  evaluation parameters when it has any.
\<close>

definition judgement_text ::
  "env \<Rightarrow> heap \<Rightarrow> string \<Rightarrow> nid list \<Rightarrow> string list option \<Rightarrow> error + string" where
  "judgement_text env h sep ps params =
     (case params of
        None \<Rightarrow> Inr (parents_text h sep [] ps)
      | Some l \<Rightarrow> params_text env (parents_text h sep [] ps) l)"

text \<open>
  A judge that is not native and rejects every schema. Its free text is the same for
  every prompt but \<open>garbled\<close>, and \<open>trimAndLoadJson\<close> knows that one text. The schema
  classes are built as pydantic builds them: \<open>Reason\<close> needs a string \<open>reason\<close> (other
  keys are ignored), \<open>BinaryJudgementVerdict\<close> a boolean \<open>verdict\<close> and a string
  \<open>reason\<close>, and the class of a \<open>NonBinaryJudgementNode\<close> a \<open>verdict\<close> among its options.
\<close>

definition generic_env :: env where
  "generic_env =
     example_env
       \<lparr>model_generate :=
          (\<lambda>calls prompt. if prompt = ''garbled'' then Inr (''oops'', 0)
                           else Inr (''verdict: true, reason: ok'', 0)),
        model_generate_schema := (\<lambda>calls prompt sch. Inl TypeError),
        trimAndLoadJson :=
          (\<lambda>res. if res = ''verdict: true, reason: ok''
                  then Inr [(''verdict'', BoolLabel True), (''reason'', StrLabel ''ok'')]
                  else Inl ValueError),
        schema_init :=
          (\<lambda>sch data.
             case sch of
               Reason \<Rightarrow>
                 (case map_of data ''reason'' of
                    Some (StrLabel r) \<Rightarrow> Inr (ReasonObj r)
                  | _ \<Rightarrow> Inl ValueError)
             | BinaryJudgementVerdict \<Rightarrow>
                 (case (map_of data ''verdict'', map_of data ''reason'') of
                    (Some (BoolLabel b), Some (StrLabel r)) \<Rightarrow> Inr (VerdictObj (BoolLabel b) r)
                  | _ \<Rightarrow> Inl ValueError)
             | NonBinaryJudgementVerdict options \<Rightarrow>
                 (case (map_of data ''verdict'', map_of data ''reason'') of
                    (Some (StrLabel l), Some (StrLabel r)) \<Rightarrow>
                      if l \<in> options then Inr (VerdictObj (StrLabel l) r) else Inl ValueError
                  | _ \<Rightarrow> Inl ValueError))\<rparr>"

text \<open>
  A \<open>TaskNode\<close> whose only child is a \<open>NonBinaryJudgementNode\<close> over three string
  verdicts, as the constructors build it; and the fresh boolean \<open>VerdictNode\<close>s as a
  state, none of them with a parent.
\<close>

definition tone_heap :: heap where
  "tone_heap =
     [\<lparr>indegree = Some 1,
       node = VerdictNode \<lparr>v_verdict = StrLabel ''a'', v_score = Some 10, v_g_eval = None,
                           v_parent = Some 3\<rparr>\<rparr>,
      \<lparr>indegree = Some 1,
       node = VerdictNode \<lparr>v_verdict = StrLabel ''b'', v_score = Some 5, v_g_eval = None,
                           v_parent = Some 3\<rparr>\<rparr>,
      \<lparr>indegree = Some 1,
       node = VerdictNode \<lparr>v_verdict = StrLabel ''c'', v_score = Some 0, v_g_eval = None,
                           v_parent = Some 3\<rparr>\<rparr>,
      \<lparr>indegree = Some 1,
       node = NonBinaryJudgementNode
                \<lparr>n_criteria = ''tone'', n_children = [0, 1, 2], n_evaluation_params = None,
                 n_verdict = None, n_parents = Some [4],
                 n_verdict_options = Some {''a'', ''b'', ''c''}\<rparr>\<rparr>,
      \<lparr>indegree = None,
       node = TaskNode \<lparr>t_instructions = ''summarize'', t_output_label = ''Summary'',
                        t_children = [3], t_evaluation_params = Some [''input''],
                        t_output = None, t_parents = None\<rparr>\<rparr>]"

definition tone_state :: state where
  "tone_state = \<lparr>heap = tone_heap, metric = example_metric\<rparr>"

definition loose_verdicts :: state where
  "loose_verdicts = \<lparr>heap = verdicts_heap, metric = example_metric\<rparr>"

text \<open>The example after its \<open>TaskNode\<close> and its judgement node have run, the verdict being \<open>True\<close>.\<close>

definition judged_state :: state where
  "judged_state =
     \<lparr>heap = example_heap
         [2 := \<lparr>indegree = Some 0,
                node = BinaryJudgementNode
                         \<lparr>b_criteria = ''length'', b_children = [0, 1],
                          b_evaluation_params = None,
                          b_verdict = Some (VerdictObj (BoolLabel True) ''ok''),
                          b_parents = Some [3]\<rparr>\<rparr>],
      metric = example_metric\<lparr>verbose_steps := [''task'', ''judgement'']\<rparr>\<rparr>"

text \<open>
  The context as the specification words it: one block per parent that is a
  \<open>TaskNode\<close>, in the order of \<open>_parents\<close>, then one block per evaluation parameter, in
  order.
\<close>

definition parent_block :: "heap \<Rightarrow> string \<Rightarrow> nid \<Rightarrow> string" where
  "parent_block h sep p =
     (case lookup h p of
        Some c \<Rightarrow>
          (case node c of
             TaskNode t \<Rightarrow> t_output_label t @ '':\<newline>'' @ str_opt (t_output t) @ sep
           | _ \<Rightarrow> [])
      | None \<Rightarrow> [])"

definition param_block :: "env \<Rightarrow> string \<Rightarrow> string" where
  "param_block env param =
     (case G_EVAL_PARAMS env param of Some l \<Rightarrow> l | None \<Rightarrow> [])
     @ '':\<newline>''
     @ (if is_ToolCall (test_case env param) then repr_of (test_case env param)
        else str_of (test_case env param))
     @ ''\<newline>''"

definition task_context :: "env \<Rightarrow> heap \<Rightarrow> nid list option \<Rightarrow> string list \<Rightarrow> string" where
  "task_context env h parents params =
     concat (map (parent_block h ''\<newline>\<newline>'') (case parents of None \<Rightarrow> [] | Some ps \<Rightarrow> ps))
     @ concat (map (param_block env) params)"

text \<open>
  Two \<open>TaskNode\<close>s, the second a child of the first, which has run with the output
  \<open>hi\<close>; the test case has an input and a tool call.
\<close>

definition tasks_env :: env where
  "tasks_env =
     example_env
       \<lparr>G_EVAL_PARAMS := (\<lambda>p. if p = ''input'' then Some ''Input''
                               else if p = ''tools_called'' then Some ''Tools Called'' else None),
        test_case := (\<lambda>p. if p = ''tools_called''
                           then \<lparr>is_ToolCall = True, str_of = ''search'', repr_of = ''ToolCall(search)''\<rparr>
                           else \<lparr>is_ToolCall = False, str_of = ''hello'', repr_of = ''<hello>''\<rparr>)\<rparr>"

definition tasks_state :: state where
  "tasks_state =
     \<lparr>heap =
        [\<lparr>indegree = Some 0,
          node = TaskNode \<lparr>t_instructions = ''summarize'', t_output_label = ''Summary'',
                           t_children = [1], t_evaluation_params = Some [''input''],
                           t_output = Some ''hi'', t_parents = None\<rparr>\<rparr>,
         \<lparr>indegree = Some 1,
          node = TaskNode \<lparr>t_instructions = ''check'', t_output_label = ''Check'',
                           t_children = [], t_evaluation_params = Some [''input'', ''tools_called''],
                           t_output = None, t_parents = Some [0]\<rparr>\<rparr>],
      metric = example_metric\<rparr>"

text \<open>A judgement node on its own, never registered as a child.\<close>

definition lone_judgement :: state where
  "lone_judgement =
     \<lparr>heap = verdicts_heap
         @ [\<lparr>indegree = None,
             node = BinaryJudgementNode
                      \<lparr>b_criteria = ''length'', b_children = [0, 1], b_evaluation_params = None,
                       b_verdict = None, b_parents = None\<rparr>\<rparr>,
            \<lparr>indegree = None,
             node = NonBinaryJudgementNode
                      \<lparr>n_criteria = ''tone'', n_children = [0], n_evaluation_params = None,
                       n_verdict = None, n_parents = None, n_verdict_options = Some {''a''}\<rparr>\<rparr>],
      metric = example_metric\<rparr>"

text \<open>A node is spent once its counter is \<open>0\<close> or below: no call of it gets past the join check again.\<close>

definition spent :: "state \<Rightarrow> nid \<Rightarrow> bool" where
  "spent st n = (n < length (indegrees st) \<and> (\<exists>k\<le>0. indegrees st ! n = Some k))"

text \<open>
  A diamond: a \<open>TaskNode\<close> with two \<open>BinaryJudgementNode\<close> children that share their
  \<open>True\<close> child, a \<open>VerdictNode\<close> registered twice.
\<close>

definition diamond_heap :: heap where
  "diamond_heap =
     [\<lparr>indegree = Some 2,
       node = VerdictNode \<lparr>v_verdict = BoolLabel True, v_score = Some 10, v_g_eval = None,
                           v_parent = Some 4\<rparr>\<rparr>,
      \<lparr>indegree = Some 1,
       node = VerdictNode \<lparr>v_verdict = BoolLabel False, v_score = Some 0, v_g_eval = None,
                           v_parent = Some 3\<rparr>\<rparr>,
      \<lparr>indegree = Some 1,
       node = VerdictNode \<lparr>v_verdict = BoolLabel False, v_score = Some 2, v_g_eval = None,
                           v_parent = Some 4\<rparr>\<rparr>,
      \<lparr>indegree = Some 1,
       node = BinaryJudgementNode \<lparr>b_criteria = ''length'', b_children = [0, 1],
                                   b_evaluation_params = None, b_verdict = None,
                                   b_parents = Some [5]\<rparr>\<rparr>,
      \<lparr>indegree = Some 1,
       node = BinaryJudgementNode \<lparr>b_criteria = ''tone'', b_children = [0, 2],
                                   b_evaluation_params = None, b_verdict = None,
                                   b_parents = Some [5]\<rparr>\<rparr>,
      \<lparr>indegree = None,
       node = TaskNode \<lparr>t_instructions = ''summarize'', t_output_label = ''Summary'',
                        t_children = [3, 4], t_evaluation_params = Some [''input''],
                        t_output = None, t_parents = None\<rparr>\<rparr>]"

definition diamond_state :: state where
  "diamond_state = \<lparr>heap = diamond_heap, metric = example_metric\<rparr>"


text \<open>
  A fork: the top \<open>TaskNode\<close> has two children, a \<open>TaskNode\<close> whose child is a judgement
  node with the scores 5 and 0, and a judgement node with the scores 10 and 0. The stub
  judge gives the verdict \<open>True\<close> to both.
\<close>

definition fork_heap :: heap where
  "fork_heap =
     [\<lparr>indegree = Some 1,
       node = VerdictNode \<lparr>v_verdict = BoolLabel True, v_score = Some 10, v_g_eval = None,
                           v_parent = Some 4\<rparr>\<rparr>,
      \<lparr>indegree = Some 1,
       node = VerdictNode \<lparr>v_verdict = BoolLabel False, v_score = Some 0, v_g_eval = None,
                           v_parent = Some 4\<rparr>\<rparr>,
      \<lparr>indegree = Some 1,
       node = VerdictNode \<lparr>v_verdict = BoolLabel True, v_score = Some 5, v_g_eval = None,
                           v_parent = Some 5\<rparr>\<rparr>,
      \<lparr>indegree = Some 1,
       node = VerdictNode \<lparr>v_verdict = BoolLabel False, v_score = Some 0, v_g_eval = None,
                           v_parent = Some 5\<rparr>\<rparr>,
      \<lparr>indegree = Some 1,
       node = BinaryJudgementNode \<lparr>b_criteria = ''length'', b_children = [0, 1],
                                   b_evaluation_params = None, b_verdict = None,
                                   b_parents = Some [7]\<rparr>\<rparr>,
      \<lparr>indegree = Some 1,
       node = BinaryJudgementNode \<lparr>b_criteria = ''tone'', b_children = [2, 3],
                                   b_evaluation_params = None, b_verdict = None,
                                   b_parents = Some [6]\<rparr>\<rparr>,
      \<lparr>indegree = Some 1,
       node = TaskNode \<lparr>t_instructions = ''rewrite'', t_output_label = ''Rewrite'',
                        t_children = [5], t_evaluation_params = Some [''input''],
                        t_output = None, t_parents = Some [7]\<rparr>\<rparr>,
      \<lparr>indegree = None,
       node = TaskNode \<lparr>t_instructions = ''summarize'', t_output_label = ''Summary'',
                        t_children = [6, 4], t_evaluation_params = Some [''input''],
                        t_output = None, t_parents = None\<rparr>\<rparr>]"


section \<open>Properties\<close>

subsection \<open>The join check\<close>

lemma visit_proceeds:
  "lookup (heap st) n = Some c \<Longrightarrow> proceeds c \<Longrightarrow>
   visit env st n d = node_body env (join st n c) n (node c) d"
  by (simp add: visit_def VerdictNode_execute_def TaskNode_execute_def
      BinaryJudgementNode_execute_def NonBinaryJudgementNode_execute_def split: node.splits)

lemma proceeds_iff: "proceeds c \<longleftrightarrow> indegree c = None \<or> indegree c = Some 1"
  by (auto simp: proceeds_def decrement_indegree_def split: option.splits)

text \<open>
  C10. \<open>decrement_indegree\<close> turns a counter \<open>None\<close> into \<open>0\<close> and any other counter \<open>k\<close>
  into \<open>k - 1\<close>, and changes nothing else of the node. So a node whose counter is still
  \<open>None\<close> (it was never registered as a child) gets past the join check on its first
  call: the call leaves the counter at \<open>0\<close> and is the body of the node.
\<close>

theorem decrement_indegree_root:
  "indegree (decrement_indegree c) = (case indegree c of None \<Rightarrow> Some 0 | Some k \<Rightarrow> Some (k - 1))
   \<and> node (decrement_indegree c) = node c
   \<and> (lookup (heap st) n = Some c \<and> indegree c = None \<longrightarrow>
        enters st n
        \<and> heap (join st n c) = (heap st)[n := c\<lparr>indegree := Some 0\<rparr>]
        \<and> visit env st n d = node_body env (join st n c) n (node c) d)"
proof (intro conjI impI)
  show "indegree (decrement_indegree c) = (case indegree c of None \<Rightarrow> Some 0 | Some k \<Rightarrow> Some (k - 1))"
    by (simp add: decrement_indegree_def split: option.splits)
  show "node (decrement_indegree c) = node c"
    by (simp add: decrement_indegree_def split: option.splits)
next
  assume a: "lookup (heap st) n = Some c \<and> indegree c = None"
  then have p: "proceeds c" by (simp add: proceeds_iff)
  with a show "enters st n" by (simp add: enters_def)
  from a show "heap (join st n c) = (heap st)[n := c\<lparr>indegree := Some 0\<rparr>]"
    by (simp add: join_def decrement_indegree_def)
  from a p show "visit env st n d = node_body env (join st n c) n (node c) d"
    by (simp add: visit_proceeds)
qed

theorem decrement_indegree_root_witness:
  "lookup (heap example_state) 3 = Some (example_heap ! 3)
   \<and> indegree (example_heap ! 3) = None
   \<and> enters example_state 3
   \<and> visit example_env example_state 3 0
       = node_body example_env (join example_state 3 (example_heap ! 3)) 3 (node (example_heap ! 3)) 0
   \<and> fst (visit example_env example_state 3 0) = None
   \<and> snd (snd (visit example_env example_state 3 0)) = [2]"
proof -
  have h: "lookup (heap example_state) 3 = Some (example_heap ! 3) \<and> indegree (example_heap ! 3) = None"
    by (simp add: example_state_def example_heap_def lookup_def)
  have v: "visit example_env example_state 3 0
       = node_body example_env (join example_state 3 (example_heap ! 3)) 3 (node (example_heap ! 3)) 0"
    "enters example_state 3"
    using decrement_indegree_root [of "example_heap ! 3" example_state 3 example_env 0] h by simp_all
  have b: "fst (node_body example_env (join example_state 3 (example_heap ! 3)) 3 (node (example_heap ! 3)) 0)
     = None"
    "snd (snd (node_body example_env (join example_state 3 (example_heap ! 3)) 3 (node (example_heap ! 3)) 0)) = [2]"
    by (simp_all add: example_env_def example_state_def example_heap_def example_metric_def
        TaskNode_body_def join_def call_generate_def Let_def)
  from h v b show ?thesis by simp
qed

subsection \<open>What a resolving verdict node writes\<close>

lemma generate_with_schema_frame:
  "m_score (snd (generate_with_schema env m p sch)) = m_score m"
  "m_reason (snd (generate_with_schema env m p sch)) = m_reason m"
  "verbose_steps (snd (generate_with_schema env m p sch)) = verbose_steps m"
  by (simp_all add: generate_with_schema_def call_generate_schema_def call_generate_def add_cost_def
      split: sum.splits option.splits prod.splits)

lemma VerdictNode_generate_reason_frame:
  assumes "VerdictNode_generate_reason env m = (r, m')"
  shows "m_score m' = m_score m \<and> m_reason m' = m_reason m \<and> verbose_steps m' = verbose_steps m"
proof -
  have "snd (VerdictNode_generate_reason env m)
      = snd (generate_with_schema env m
               (generate_reason env (verbose_steps m) (m_score m) (m_name m)) Reason)"
    by (simp add: VerdictNode_generate_reason_def Let_def split: sum.splits prod.splits)
  with assms show ?thesis
    by (simp add: generate_with_schema_frame)
qed

lemma VerdictNode_log_entry:
  "\<exists>entry. construct_node_verbose_log (VerdictNode v) d = Inr entry"
  by simp

lemma VerdictNode_resolve_score:
  assumes a: "v_g_eval v = None \<and> v_score v = Some s"
  shows "m_score (metric (fst (snd (VerdictNode_resolve env st v d)))) = Some (of_int s / 10)"
proof -
  obtain entry where e: "construct_node_verbose_log (VerdictNode v) d = Inr entry"
    using VerdictNode_log_entry by blast
  show ?thesis
  proof (cases "include_reason (metric st)")
    case False
    with a e show ?thesis
      by (simp add: VerdictNode_resolve_def append_log_def Let_def
          del: construct_node_verbose_log.simps)
  next
    case True
    with a e show ?thesis
      by (auto simp: VerdictNode_resolve_def append_log_def Let_def
          simp del: construct_node_verbose_log.simps
          dest!: VerdictNode_generate_reason_frame split: prod.splits sum.splits)
  qed
qed

lemma VerdictNode_resolve_leaf: "snd (snd (VerdictNode_resolve env st v d)) = []"
  by (simp add: VerdictNode_resolve_def Let_def split: sum.splits option.splits prod.splits)

subsection \<open>Construction of judgement nodes\<close>

lemma register_children_result:
  "\<forall>c\<in>set cs. c < length h \<Longrightarrow>
   \<exists>h'. register_children h self cs = Inr h' \<and> length h' = length h
     \<and> (\<forall>i. i \<notin> set cs \<longrightarrow> h' ! i = h ! i)
     \<and> (distinct cs \<longrightarrow> (\<forall>i\<in>set cs. h' ! i = registered self (h ! i)))"
proof (induction cs arbitrary: h)
  case Nil
  then show ?case by simp
next
  case (Cons c cs)
  let ?h1 = "h[c := registered self (h ! c)]"
  from Cons.prems have c: "c < length h" and cs: "\<forall>c\<in>set cs. c < length ?h1" by simp_all
  from Cons.IH [OF cs] obtain h' where h': "register_children ?h1 self cs = Inr h'"
    "length h' = length h" "\<forall>i. i \<notin> set cs \<longrightarrow> h' ! i = ?h1 ! i"
    "distinct cs \<longrightarrow> (\<forall>i\<in>set cs. h' ! i = registered self (?h1 ! i))"
    by auto
  from c h'(1) have "register_children h self (c # cs) = Inr h'"
    by (simp add: lookup_def registered_def)
  moreover from h'(3) have "\<forall>i. i \<notin> set (c # cs) \<longrightarrow> h' ! i = h ! i"
    by simp
  moreover have "distinct (c # cs) \<longrightarrow> (\<forall>i\<in>set (c # cs). h' ! i = registered self (h ! i))"
  proof (intro impI ballI)
    fix i assume d: "distinct (c # cs)" and i: "i \<in> set (c # cs)"
    show "h' ! i = registered self (h ! i)"
    proof (cases "i = c")
      case True
      with d h'(3) c show ?thesis by simp
    next
      case False
      with i d h'(4) show ?thesis by simp
    qed
  qed
  ultimately show ?case using h'(2) by blast
qed

lemma registered_VerdictNode:
  "node x = VerdictNode v \<Longrightarrow>
   registered self x = \<lparr>indegree = Some (case indegree x of None \<Rightarrow> 1 | Some k \<Rightarrow> k + 1),
                        node = VerdictNode (v\<lparr>v_parent := Some self\<rparr>)\<rparr>"
  by (cases x) (simp add: registered_def increment_indegree_def split: option.splits)

lemma verdict_of_Some: "verdict_of h c = Some l \<Longrightarrow> c < length h \<and> (\<exists>v. node (h ! c) = VerdictNode v \<and> v_verdict v = l)"
  by (auto simp: verdict_of_def lookup_def split: if_splits node.splits)

lemma verdict_of_append:
  "(case node x of VerdictNode _ \<Rightarrow> False | _ \<Rightarrow> True) \<Longrightarrow> verdict_of (h @ [x]) c = verdict_of h c"
  by (auto simp: verdict_of_def lookup_def nth_append less_Suc_eq split: node.splits)

lemma verdict_of_update:
  "(case node x of VerdictNode _ \<Rightarrow> False | _ \<Rightarrow> True) \<Longrightarrow>
   (case node (h ! i) of VerdictNode _ \<Rightarrow> False | _ \<Rightarrow> True) \<Longrightarrow>
   verdict_of (h[i := x]) c = verdict_of h c"
  by (cases "c = i") (auto simp: verdict_of_def lookup_def split: node.splits)

lemma Binary_check_children_iff:
  "Binary_check_children h cs = Inr () \<longleftrightarrow> (\<forall>c\<in>set cs. \<exists>b. verdict_of h c = Some (BoolLabel b))"
  by (induction cs) (auto split: option.splits label.splits)

lemma NonBinary_check_children_iff:
  "NonBinary_check_children h acc cs = Inr S \<longleftrightarrow>
     (\<forall>c\<in>set cs. \<exists>s. verdict_of h c = Some (StrLabel s))
     \<and> distinct (str_labels h cs) \<and> set (str_labels h cs) \<inter> acc = {}
     \<and> S = acc \<union> set (str_labels h cs)"
proof (induction cs arbitrary: acc)
  case Nil
  then show ?case by (auto simp: str_labels_def)
next
  case (Cons c cs)
  show ?case
  proof (cases "verdict_of h c")
    case None
    then show ?thesis by simp
  next
    case (Some l)
    show ?thesis
    proof (cases l)
      case (BoolLabel b)
      with Some show ?thesis by simp
    next
      case (StrLabel s)
      have l: "str_labels h (c # cs) = s # str_labels h cs"
        using Some StrLabel by (simp add: str_labels_def)
      show ?thesis
        using Some StrLabel Cons.IH [of "insert s acc"]
        by (auto simp: l)
    qed
  qed
qed

lemma register_verdict_children:
  assumes v: "\<forall>c\<in>set cs. verdict_of H c \<noteq> None" and d: "distinct cs"
  shows "\<exists>h'. register_children H self cs = Inr h' \<and> length h' = length H
     \<and> (\<forall>i. i \<notin> set cs \<longrightarrow> h' ! i = H ! i)
     \<and> (\<forall>c\<in>set cs. parent_of h' c = Some self
            \<and> indegree_of h' c = Some (case indegree_of H c of None \<Rightarrow> 1 | Some k \<Rightarrow> k + 1))"
proof -
  from v have lt: "\<forall>c\<in>set cs. c < length H"
    by (auto dest: verdict_of_Some)
  from register_children_result [OF lt, of self] d obtain h' where
    h': "register_children H self cs = Inr h'" "length h' = length H"
      "\<forall>i. i \<notin> set cs \<longrightarrow> h' ! i = H ! i" "\<forall>i\<in>set cs. h' ! i = registered self (H ! i)"
    by auto
  have "parent_of h' c = Some self
      \<and> indegree_of h' c = Some (case indegree_of H c of None \<Rightarrow> 1 | Some k \<Rightarrow> k + 1)"
    if c: "c \<in> set cs" for c
  proof -
    from v c obtain l where "verdict_of H c = Some l" by auto
    then obtain vn where n: "c < length H" "node (H ! c) = VerdictNode vn"
      by (auto dest: verdict_of_Some)
    from h'(4) c n(2) have "h' ! c = \<lparr>indegree = Some (case indegree (H ! c) of None \<Rightarrow> 1 | Some k \<Rightarrow> k + 1),
                        node = VerdictNode (vn\<lparr>v_parent := Some self\<rparr>)\<rparr>"
      by (simp add: registered_VerdictNode)
    with n(1) h'(2) show ?thesis
      by (simp add: parent_of_def indegree_of_def lookup_def)
  qed
  with h' show ?thesis by blast
qed

lemma indegree_of_append: "c < length h \<Longrightarrow> indegree_of (h @ xs) c = indegree_of h c"
  by (simp add: indegree_of_def lookup_def nth_append)

lemma two_verdicts_distinct:
  assumes "count_list [a, b] (Some (BoolLabel True)) = 1" "count_list [a, b] (Some (BoolLabel False)) = 1"
  shows "a \<noteq> b"
  using assms by (auto split: if_splits)

text \<open>
  C4. Constructing a \<open>BinaryJudgementNode\<close> succeeds exactly when it has two children,
  each a \<open>VerdictNode\<close> with a boolean verdict, one of them \<open>True\<close> and one \<open>False\<close>;
  otherwise it raises. On success the new node is the parent of each child, and the
  join counter of each child has gone up by one (from \<open>None\<close> to \<open>1\<close>).
\<close>

theorem BinaryJudgementNode_construction:
  "((\<exists>r. new_BinaryJudgementNode h criteria cs ps = Inr r) \<longleftrightarrow>
      length cs = 2 \<and> (\<forall>c\<in>set cs. \<exists>b. verdict_of h c = Some (BoolLabel b))
      \<and> count_list (verdicts_of h cs) (Some (BoolLabel True)) = 1
      \<and> count_list (verdicts_of h cs) (Some (BoolLabel False)) = 1)
   \<and> (new_BinaryJudgementNode h criteria cs ps = Inr (self, h') \<longrightarrow>
        self = length h
        \<and> (\<forall>c\<in>set cs. parent_of h' c = Some self
              \<and> indegree_of h' c = Some (case indegree_of h c of None \<Rightarrow> 1 | Some k \<Rightarrow> k + 1)))"
proof -
  define b where "b = \<lparr>b_criteria = criteria, b_children = cs, b_evaluation_params = ps,
      b_verdict = None, b_parents = None\<rparr>"
  define H where "H = h @ [\<lparr>indegree = None, node = BinaryJudgementNode b\<rparr>]"
  let ?ok = "length cs = 2 \<and> (\<forall>c\<in>set cs. \<exists>b. verdict_of h c = Some (BoolLabel b))
      \<and> count_list (verdicts_of h cs) (Some (BoolLabel True)) = 1
      \<and> count_list (verdicts_of h cs) (Some (BoolLabel False)) = 1"
  have vo: "verdict_of H c = verdict_of h c" for c
    by (simp add: H_def verdict_of_append)
  then have vs: "verdicts_of H cs = verdicts_of h cs"
    by (simp add: verdicts_of_def)
  have new: "new_BinaryJudgementNode h criteria cs ps =
      (case BinaryJudgementNode_post_init H (length h) b of Inl e \<Rightarrow> Inl e | Inr h' \<Rightarrow> Inr (length h, h'))"
    by (simp add: new_BinaryJudgementNode_def b_def H_def Let_def)
  have fail: "\<not> ?ok \<Longrightarrow> \<exists>e. BinaryJudgementNode_post_init H (length h) b = Inl e"
    using Binary_check_children_iff [of H cs]
    by (auto simp: BinaryJudgementNode_post_init_def b_def vo vs Let_def split: sum.splits)
  have good: "\<exists>h'. BinaryJudgementNode_post_init H (length h) b = Inr h'
      \<and> (\<forall>c\<in>set cs. parent_of h' c = Some (length h)
              \<and> indegree_of h' c = Some (case indegree_of h c of None \<Rightarrow> 1 | Some k \<Rightarrow> k + 1))"
    if ok: ?ok
  proof -
    from ok obtain c1 c2 where cs: "cs = [c1, c2]"
      by (cases cs; cases "tl cs") auto
    from ok cs have "verdict_of h c1 \<noteq> verdict_of h c2"
      by (intro two_verdicts_distinct) (simp_all add: verdicts_of_def)
    with cs have d: "distinct cs" by auto
    from ok have v: "\<forall>c\<in>set cs. verdict_of H c \<noteq> None"
      by (auto simp: vo)
    from ok have lt: "\<forall>c\<in>set cs. c < length h"
      by (auto dest: verdict_of_Some)
    from register_verdict_children [OF v d, of "length h"] obtain h' where
      h': "register_children H (length h) cs = Inr h'"
        "\<forall>c\<in>set cs. parent_of h' c = Some (length h)
            \<and> indegree_of h' c = Some (case indegree_of H c of None \<Rightarrow> 1 | Some k \<Rightarrow> k + 1)"
      by blast
    from ok have "Binary_check_children H cs = Inr ()"
      by (simp add: Binary_check_children_iff vo)
    with ok h'(1) have "BinaryJudgementNode_post_init H (length h) b = Inr h'"
      by (simp add: BinaryJudgementNode_post_init_def b_def vs Let_def)
    moreover from h'(2) lt have "\<forall>c\<in>set cs. parent_of h' c = Some (length h)
              \<and> indegree_of h' c = Some (case indegree_of h c of None \<Rightarrow> 1 | Some k \<Rightarrow> k + 1)"
      by (simp add: H_def indegree_of_append)
    ultimately show ?thesis by blast
  qed
  show ?thesis
  proof (cases ?ok)
    case True
    from good [OF True] new True show ?thesis by auto
  next
    case False
    from fail [OF False] new False show ?thesis by auto
  qed
qed

lemma verdicts_heap_verdicts:
  "verdict_of verdicts_heap 0 = Some (BoolLabel True)"
  "verdict_of verdicts_heap 1 = Some (BoolLabel False)"
  "verdict_of verdicts_heap 2 = Some (BoolLabel True)"
  "indegree_of verdicts_heap 0 = None"
  "indegree_of verdicts_heap 1 = None"
  "verdict_of verdicts_heap (Suc 0) = Some (BoolLabel False)"
  "indegree_of verdicts_heap (Suc 0) = None"
  by (simp_all add: verdicts_heap_def verdict_of_def indegree_of_def lookup_def)

theorem BinaryJudgementNode_construction_witness:
  "(\<nexists>r. new_BinaryJudgementNode verdicts_heap ''c'' [0, 2] None = Inr r)
   \<and> (\<exists>h'. new_BinaryJudgementNode verdicts_heap ''c'' [0, 1] None = Inr (3, h')
        \<and> parent_of h' 0 = Some 3 \<and> parent_of h' 1 = Some 3
        \<and> indegree_of h' 0 = Some 1 \<and> indegree_of h' 1 = Some 1)"
proof -
  have "\<nexists>r. new_BinaryJudgementNode verdicts_heap ''c'' [0, 2] None = Inr r"
    using BinaryJudgementNode_construction [of verdicts_heap "''c''" "[0, 2]" None]
    by (simp add: verdicts_of_def verdicts_heap_verdicts)
  moreover
  have "\<exists>r. new_BinaryJudgementNode verdicts_heap ''c'' [0, 1] None = Inr r"
    using BinaryJudgementNode_construction [of verdicts_heap "''c''" "[0, 1]" None]
    by (auto simp: verdicts_of_def verdicts_heap_verdicts)
  then obtain self h' where r: "new_BinaryJudgementNode verdicts_heap ''c'' [0, 1] None = Inr (self, h')"
    by auto
  with BinaryJudgementNode_construction [of verdicts_heap "''c''" "[0, 1]" None self h']
  have "self = 3 \<and> parent_of h' 0 = Some 3 \<and> parent_of h' 1 = Some 3
        \<and> indegree_of h' 0 = Some 1 \<and> indegree_of h' 1 = Some 1"
    by (simp add: verdicts_heap_verdicts) (simp add: verdicts_heap_def)
  with r have "\<exists>h'. new_BinaryJudgementNode verdicts_heap ''c'' [0, 1] None = Inr (3, h')
        \<and> parent_of h' 0 = Some 3 \<and> parent_of h' 1 = Some 3
        \<and> indegree_of h' 0 = Some 1 \<and> indegree_of h' 1 = Some 1"
    by auto
  ultimately show ?thesis by blast
qed

lemma str_labels_member:
  "c \<in> set cs \<Longrightarrow> verdict_of h c = Some (StrLabel s) \<Longrightarrow> s \<in> set (str_labels h cs)"
  by (induction cs) (auto simp: str_labels_def)

lemma str_labels_distinct:
  "\<forall>c\<in>set cs. \<exists>s. verdict_of h c = Some (StrLabel s) \<Longrightarrow> distinct (str_labels h cs) \<Longrightarrow> distinct cs"
proof (induction cs)
  case Nil
  then show ?case by simp
next
  case (Cons c cs)
  from Cons.prems(1) obtain s where s: "verdict_of h c = Some (StrLabel s)" by auto
  then have l: "str_labels h (c # cs) = s # str_labels h cs"
    by (simp add: str_labels_def)
  with Cons.prems(2) s have "c \<notin> set cs"
    by (auto dest: str_labels_member)
  with Cons l show ?case by simp
qed

lemma str_labels_cong:
  "(\<And>c. verdict_of H c = verdict_of h c) \<Longrightarrow> str_labels H cs = str_labels h cs"
  by (simp add: str_labels_def)

lemma NonBinary_check_children_cong:
  "(\<And>c. verdict_of H c = verdict_of h c) \<Longrightarrow>
   NonBinary_check_children H acc cs = NonBinary_check_children h acc cs"
  by (induction cs arbitrary: acc) (simp_all split: option.splits label.splits)

text \<open>
  C5. Constructing a \<open>NonBinaryJudgementNode\<close> succeeds exactly when it has at least one
  child, every child is a \<open>VerdictNode\<close> with a string verdict, and no two children have
  the same verdict; otherwise it raises. On success the accepted labels cached on the
  node are exactly the verdicts of its children.
\<close>

theorem NonBinaryJudgementNode_construction:
  "((\<exists>r. new_NonBinaryJudgementNode h criteria cs ps = Inr r) \<longleftrightarrow>
      cs \<noteq> [] \<and> (\<forall>c\<in>set cs. \<exists>s. verdict_of h c = Some (StrLabel s))
      \<and> distinct (str_labels h cs))
   \<and> (new_NonBinaryJudgementNode h criteria cs ps = Inr (self, h') \<longrightarrow>
        self = length h \<and> verdict_options_of h' self = Some (set (str_labels h cs)))"
proof -
  define n where "n = \<lparr>n_criteria = criteria, n_children = cs, n_evaluation_params = ps,
      n_verdict = None, n_parents = None, n_verdict_options = None\<rparr>"
  define H where "H = h @ [\<lparr>indegree = None, node = NonBinaryJudgementNode n\<rparr>]"
  define S where "S = set (str_labels h cs)"
  define H1 where "H1 = H[length h := \<lparr>indegree = None,
      node = NonBinaryJudgementNode (n\<lparr>n_verdict_options := Some S\<rparr>)\<rparr>]"
  let ?ok = "cs \<noteq> [] \<and> (\<forall>c\<in>set cs. \<exists>s. verdict_of h c = Some (StrLabel s))
      \<and> distinct (str_labels h cs)"
  have vo: "verdict_of H c = verdict_of h c" for c
    by (simp add: H_def verdict_of_append)
  have vo1: "verdict_of H1 c = verdict_of h c" for c
    unfolding H1_def by (subst verdict_of_update) (simp_all add: vo, simp add: H_def)
  have chk: "NonBinary_check_children H {} cs = NonBinary_check_children h {} cs"
    by (rule NonBinary_check_children_cong) (rule vo)
  have new: "new_NonBinaryJudgementNode h criteria cs ps =
      (case NonBinaryJudgementNode_post_init H (length h) n of
         Inl e \<Rightarrow> Inl e | Inr h' \<Rightarrow> Inr (length h, h'))"
    by (simp add: new_NonBinaryJudgementNode_def n_def H_def Let_def)
  have fail: "\<not> ?ok \<Longrightarrow> \<exists>e. NonBinaryJudgementNode_post_init H (length h) n = Inl e"
    using NonBinary_check_children_iff [of h "{}" cs]
    by (auto simp: NonBinaryJudgementNode_post_init_def n_def chk split: sum.splits)
  have good: "\<exists>h'. NonBinaryJudgementNode_post_init H (length h) n = Inr h'
      \<and> verdict_options_of h' (length h) = Some S"
    if ok: ?ok
  proof -
    from ok have c: "NonBinary_check_children H {} cs = Inr S"
      by (simp add: chk NonBinary_check_children_iff S_def)
    from ok have d: "distinct cs"
      by (auto intro: str_labels_distinct)
    from ok have v: "\<forall>c\<in>set cs. verdict_of H1 c \<noteq> None"
      by (auto simp: vo1)
    from ok have lt: "\<forall>c\<in>set cs. c < length h"
      by (auto dest: verdict_of_Some)
    from register_verdict_children [OF v d, of "length h"] obtain h' where
      h': "register_children H1 (length h) cs = Inr h'" "length h' = length H1"
        "\<forall>i. i \<notin> set cs \<longrightarrow> h' ! i = H1 ! i"
      by blast
    have "H[length h := (H ! length h)\<lparr>node := NonBinaryJudgementNode (n\<lparr>n_verdict_options := Some S\<rparr>)\<rparr>] = H1"
      by (simp add: H1_def H_def)
    with ok c h'(1) have "NonBinaryJudgementNode_post_init H (length h) n = Inr h'"
      by (simp add: NonBinaryJudgementNode_post_init_def n_def)
    moreover from lt have "length h \<notin> set cs" by auto
    with h'(2,3) have "verdict_options_of h' (length h) = Some S"
      by (simp add: verdict_options_of_def lookup_def H1_def H_def)
    ultimately show ?thesis by blast
  qed
  show ?thesis
  proof (cases ?ok)
    case True
    from good [OF True] new True show ?thesis by (auto simp: S_def)
  next
    case False
    from fail [OF False] new False show ?thesis by auto
  qed
qed

lemma labels_heap_verdicts:
  "verdict_of labels_heap 0 = Some (StrLabel ''a'')"
  "verdict_of labels_heap (Suc 0) = Some (StrLabel ''b'')"
  "verdict_of labels_heap 2 = Some (StrLabel ''c'')"
  "verdict_of labels_heap 3 = Some (StrLabel ''a'')"
  by (simp_all add: labels_heap_def verdict_of_def lookup_def)

theorem NonBinaryJudgementNode_construction_witness:
  "(\<nexists>r. new_NonBinaryJudgementNode labels_heap ''q'' [0, 3] None = Inr r)
   \<and> (\<nexists>r. new_NonBinaryJudgementNode labels_heap ''q'' [] None = Inr r)
   \<and> (\<exists>h'. new_NonBinaryJudgementNode labels_heap ''q'' [0, 1, 2] None = Inr (4, h')
        \<and> verdict_options_of h' 4 = Some {''a'', ''b'', ''c''})"
proof -
  have "\<nexists>r. new_NonBinaryJudgementNode labels_heap ''q'' [0, 3] None = Inr r"
    using NonBinaryJudgementNode_construction [of labels_heap "''q''" "[0, 3]" None]
    by (auto simp: str_labels_def labels_heap_verdicts)
  moreover
  have "\<nexists>r. new_NonBinaryJudgementNode labels_heap ''q'' [] None = Inr r"
    using NonBinaryJudgementNode_construction [of labels_heap "''q''" "[]" None]
    by auto
  moreover
  have "\<exists>r. new_NonBinaryJudgementNode labels_heap ''q'' [0, 1, 2] None = Inr r"
    using NonBinaryJudgementNode_construction [of labels_heap "''q''" "[0, 1, 2]" None]
    by (auto simp: str_labels_def labels_heap_verdicts)
  then obtain self h' where r: "new_NonBinaryJudgementNode labels_heap ''q'' [0, 1, 2] None = Inr (self, h')"
    by auto
  have len: "length labels_heap = 4"
    by (simp add: labels_heap_def)
  from r NonBinaryJudgementNode_construction [of labels_heap "''q''" "[0, 1, 2]" None self h']
  have "self = 4 \<and> verdict_options_of h' 4 = Some {''a'', ''b'', ''c''}"
    by (auto simp: str_labels_def labels_heap_verdicts len)
  with r have "\<exists>h'. new_NonBinaryJudgementNode labels_heap ''q'' [0, 1, 2] None = Inr (4, h')
        \<and> verdict_options_of h' 4 = Some {''a'', ''b'', ''c''}"
    by auto
  ultimately show ?thesis by blast
qed

subsection \<open>The gate of a verdict node\<close>

lemma lookup_join_node:
  "lookup (heap st) n = Some c \<Longrightarrow>
   map_option node (lookup (heap (join st n c)) q) = map_option node (lookup (heap st) q)"
  by (cases "q = n") (auto simp: lookup_def join_def decrement_indegree_def split: option.splits if_splits)

lemma parent_verdict_join:
  assumes "lookup (heap st) n = Some c"
  shows "parent_verdict (heap (join st n c)) p = parent_verdict (heap st) p"
proof (cases p)
  case None
  then show ?thesis by (simp add: parent_verdict_def)
next
  case (Some q)
  from lookup_join_node [OF assms, of q] show ?thesis
    by (cases "lookup (heap (join st n c)) q"; cases "lookup (heap st) q")
       (auto simp: parent_verdict_def Some)
qed

lemma VerdictNode_resolve_log:
  "construct_node_verbose_log (VerdictNode v) d = Inr entry \<Longrightarrow>
   verbose_steps (metric (fst (snd (VerdictNode_resolve env st v d)))) = verbose_steps (metric st) @ [entry]"
  by (auto simp: VerdictNode_resolve_def append_log_def Let_def
      simp del: construct_node_verbose_log.simps
      dest!: VerdictNode_generate_reason_frame split: prod.splits sum.splits option.splits)

text \<open>
  C2. Take a \<open>VerdictNode\<close> whose call gets past the join check. If its parent is a
  judgement node whose resolved verdict differs from the label of the node, the call
  returns at once: the state is the one the join check left, so the metric (log, score,
  reason) is untouched, and no child is called. If the verdict equals the label, or the
  parent is no judgement node, the node resolves: its entry is appended to the log.
  (\<open>parent_verdict\<close> is \<open>None\<close> when \<open>_parent\<close> is no judgement node, and holds
  \<open>_parent._verdict.verdict\<close> when it is one.)
\<close>

theorem verdict_gate:
  "lookup (heap st) n = Some c \<and> node c = VerdictNode v \<and> proceeds c \<longrightarrow>
     (\<forall>l. parent_verdict (heap st) (v_parent v) = Some (Inr l) \<and> l \<noteq> v_verdict v \<longrightarrow>
        visit env st n d = (None, join st n c, [])
        \<and> metric (join st n c) = metric st)
     \<and> (parent_verdict (heap st) (v_parent v) = Some (Inr (v_verdict v))
         \<or> parent_verdict (heap st) (v_parent v) = None \<longrightarrow>
        visit env st n d = VerdictNode_resolve env (join st n c) v d
        \<and> (\<exists>entry. construct_node_verbose_log (VerdictNode v) d = Inr entry
              \<and> verbose_steps (metric (fst (snd (visit env st n d))))
                  = verbose_steps (metric st) @ [entry]))"
proof (intro impI conjI allI)
  fix l
  assume a: "lookup (heap st) n = Some c \<and> node c = VerdictNode v \<and> proceeds c"
    and b: "parent_verdict (heap st) (v_parent v) = Some (Inr l) \<and> l \<noteq> v_verdict v"
  from a b show "visit env st n d = (None, join st n c, [])"
    by (simp add: visit_def VerdictNode_execute_def VerdictNode_body_def parent_verdict_join)
  show "metric (join st n c) = metric st"
    by (simp add: join_def)
next
  assume a: "lookup (heap st) n = Some c \<and> node c = VerdictNode v \<and> proceeds c"
    and b: "parent_verdict (heap st) (v_parent v) = Some (Inr (v_verdict v))
         \<or> parent_verdict (heap st) (v_parent v) = None"
  from a b show r: "visit env st n d = VerdictNode_resolve env (join st n c) v d"
    by (auto simp: visit_def VerdictNode_execute_def VerdictNode_body_def parent_verdict_join)
  obtain entry where e: "construct_node_verbose_log (VerdictNode v) d = Inr entry"
    using VerdictNode_log_entry by blast
  from VerdictNode_resolve_log [OF e, of env "join st n c"]
  have "verbose_steps (metric (fst (snd (visit env st n d)))) = verbose_steps (metric st) @ [entry]"
    by (simp add: r join_def)
  with e show "\<exists>entry. construct_node_verbose_log (VerdictNode v) d = Inr entry
              \<and> verbose_steps (metric (fst (snd (visit env st n d))))
                  = verbose_steps (metric st) @ [entry]"
    by blast
qed

theorem verdict_gate_witness:
  "visit example_env judged_state 1 2
     = (None, judged_state\<lparr>heap := (heap judged_state)[1 := (heap judged_state ! 1)\<lparr>indegree := Some 0\<rparr>]\<rparr>, [])
   \<and> length (verbose_steps (metric (fst (snd (visit example_env judged_state 0 2))))) = 3
   \<and> m_score (metric (fst (snd (visit example_env judged_state 0 2)))) = Some 1"
proof -
  let ?v0 = "\<lparr>v_verdict = BoolLabel True, v_score = Some 10, v_g_eval = None, v_parent = Some 2\<rparr>"
  let ?v1 = "\<lparr>v_verdict = BoolLabel False, v_score = Some 0, v_g_eval = None, v_parent = Some 2\<rparr>"
  have h: "lookup (heap judged_state) 1 = Some (heap judged_state ! 1)"
    "node (heap judged_state ! 1) = VerdictNode ?v1" "proceeds (heap judged_state ! 1)"
    "lookup (heap judged_state) 0 = Some (heap judged_state ! 0)"
    "node (heap judged_state ! 0) = VerdictNode ?v0" "proceeds (heap judged_state ! 0)"
    "parent_verdict (heap judged_state) (Some 2) = Some (Inr (BoolLabel True))"
    by (simp_all add: judged_state_def example_heap_def lookup_def proceeds_def
        decrement_indegree_def parent_verdict_def)
  from verdict_gate [of judged_state 1 "heap judged_state ! 1" ?v1 example_env 2] h
  have "visit example_env judged_state 1 2 = (None, join judged_state 1 (heap judged_state ! 1), [])"
    by simp
  then have a: "visit example_env judged_state 1 2
     = (None, judged_state\<lparr>heap := (heap judged_state)[1 := (heap judged_state ! 1)\<lparr>indegree := Some 0\<rparr>]\<rparr>, [])"
    by (simp add: join_def decrement_indegree_def judged_state_def example_heap_def)
  from verdict_gate [of judged_state 0 "heap judged_state ! 0" ?v0 example_env 2] h
  have r: "visit example_env judged_state 0 2
      = VerdictNode_resolve example_env (join judged_state 0 (heap judged_state ! 0)) ?v0 2"
    and "\<exists>entry. verbose_steps (metric (fst (snd (visit example_env judged_state 0 2))))
                  = verbose_steps (metric judged_state) @ [entry]"
    by auto
  then have b: "length (verbose_steps (metric (fst (snd (visit example_env judged_state 0 2))))) = 3"
    by (auto simp: judged_state_def)
  have c: "m_score (metric (fst (snd (visit example_env judged_state 0 2)))) = Some 1"
    unfolding r
    by (simp add: VerdictNode_resolve_def join_def judged_state_def example_metric_def
        append_log_def Let_def)
  from a b c show ?thesis by simp
qed

subsection \<open>The context of a task\<close>

lemma parents_text_blocks:
  "parents_text h sep acc ps = acc @ concat (map (parent_block h sep) ps)"
  by (induction ps arbitrary: acc) (auto simp: parent_block_def split: option.splits node.splits)

lemma params_text_blocks:
  "\<forall>p\<in>set ps. G_EVAL_PARAMS env p \<noteq> None \<Longrightarrow>
   params_text env acc ps = Inr (acc @ concat (map (param_block env) ps))"
  by (induction ps arbitrary: acc) (auto simp: param_block_def Let_def)

lemma params_text_KeyError:
  "\<exists>p\<in>set ps. G_EVAL_PARAMS env p = None \<Longrightarrow> params_text env acc ps = Inl KeyError"
  by (induction ps arbitrary: acc) (auto simp: Let_def split: option.splits)

lemma parent_block_join:
  assumes "lookup (heap st) n = Some c"
  shows "parent_block (heap (join st n c)) sep = parent_block (heap st) sep"
proof
  fix p
  from lookup_join_node [OF assms, of p]
  show "parent_block (heap (join st n c)) sep p = parent_block (heap st) sep p"
    by (cases "lookup (heap (join st n c)) p"; cases "lookup (heap st) p")
       (auto simp: parent_block_def)
qed

lemma TaskNode_body_calls:
  assumes "t_evaluation_params t = Some params" "\<forall>p\<in>set params. G_EVAL_PARAMS env p \<noteq> None"
  shows "model_calls (metric (fst (snd (TaskNode_body env st self t d))))
     = model_calls (metric st)
       @ [(generate_task_output env (t_instructions t) (task_context env (heap st) (t_parents t) params), None)]"
proof -
  have "params_text env (case t_parents t of None \<Rightarrow> [] | Some ps \<Rightarrow> parents_text (heap st) ''\<newline>\<newline>'' [] ps) params
      = Inr (task_context env (heap st) (t_parents t) params)"
    using assms(2) by (simp add: params_text_blocks parents_text_blocks task_context_def split: option.splits)
  with assms(1) show ?thesis
    by (simp add: TaskNode_body_def Let_def call_generate_def add_cost_def set_node_def append_log_def
        split: sum.splits prod.splits option.splits)
qed

text \<open>
  C8. When a \<open>TaskNode\<close> executes (its call gets past the join check) and every
  evaluation parameter has a label in \<open>G_EVAL_PARAMS\<close>, the judge is called once, with the
  prompt that the template makes of the instructions and the context; the context is
  the blocks of the parents that are \<open>TaskNode\<close>s (output label and output, in the order
  of \<open>_parents\<close>) followed by the blocks of the evaluation parameters (label and value,
  in order), a \<open>ToolCall\<close> value being rendered by \<open>repr\<close>.
\<close>

theorem TaskNode_context:
  "lookup (heap st) n = Some c \<and> node c = TaskNode t \<and> proceeds c
   \<and> t_evaluation_params t = Some params \<and> (\<forall>p\<in>set params. G_EVAL_PARAMS env p \<noteq> None) \<longrightarrow>
     model_calls (metric (fst (snd (visit env st n d))))
       = model_calls (metric st)
         @ [(generate_task_output env (t_instructions t)
               (concat (map (parent_block (heap st) ''\<newline>\<newline>'')
                          (case t_parents t of None \<Rightarrow> [] | Some ps \<Rightarrow> ps))
                @ concat (map (param_block env) params)), None)]"
proof
  assume a: "lookup (heap st) n = Some c \<and> node c = TaskNode t \<and> proceeds c
   \<and> t_evaluation_params t = Some params \<and> (\<forall>p\<in>set params. G_EVAL_PARAMS env p \<noteq> None)"
  then have v: "visit env st n d = TaskNode_body env (join st n c) n t d"
    by (simp add: visit_def TaskNode_execute_def)
  from a have "task_context env (heap (join st n c)) (t_parents t) params
      = task_context env (heap st) (t_parents t) params"
    by (simp add: task_context_def parent_block_join)
  with a TaskNode_body_calls [of t params env "join st n c" n d]
  show "model_calls (metric (fst (snd (visit env st n d))))
       = model_calls (metric st)
         @ [(generate_task_output env (t_instructions t)
               (concat (map (parent_block (heap st) ''\<newline>\<newline>'')
                          (case t_parents t of None \<Rightarrow> [] | Some ps \<Rightarrow> ps))
                @ concat (map (param_block env) params)), None)]"
    by (simp add: v task_context_def join_def)
qed

theorem TaskNode_context_witness:
  "model_calls (metric (fst (snd (visit tasks_env tasks_state 1 1))))
     = [(''check|Summary:\<newline>hi\<newline>\<newline>Input:\<newline>hello\<newline>Tools Called:\<newline>ToolCall(search)\<newline>'', None)]"
proof -
  let ?t = "\<lparr>t_instructions = ''check'', t_output_label = ''Check'',
              t_children = [], t_evaluation_params = Some [''input'', ''tools_called''],
              t_output = None, t_parents = Some [0]\<rparr>"
  have h: "lookup (heap tasks_state) 1 = Some (heap tasks_state ! 1)"
    "node (heap tasks_state ! 1) = TaskNode ?t" "proceeds (heap tasks_state ! 1)"
    "G_EVAL_PARAMS tasks_env ''input'' \<noteq> None" "G_EVAL_PARAMS tasks_env ''tools_called'' \<noteq> None"
    "model_calls (metric tasks_state) = []"
    by (simp_all add: tasks_state_def tasks_env_def lookup_def proceeds_def decrement_indegree_def
        example_metric_def)
  from TaskNode_context [of tasks_state 1 "heap tasks_state ! 1" ?t "[''input'', ''tools_called'']" tasks_env 1] h
  have "model_calls (metric (fst (snd (visit tasks_env tasks_state 1 1))))
      = [(generate_task_output tasks_env ''check''
               (concat (map (parent_block (heap tasks_state) ''\<newline>\<newline>'') [0])
                @ concat (map (param_block tasks_env) [''input'', ''tools_called''])), None)]"
    by simp
  then show ?thesis
    by (simp add: parent_block_def param_block_def tasks_state_def tasks_env_def example_env_def
        lookup_def)
qed

subsection \<open>Nodes without parents\<close>

lemma TaskNode_log_entry:
  "\<exists>entry. construct_node_verbose_log (TaskNode t) d = Inr entry"
  by simp

text \<open>
  C9. A judgement node that was never registered as a child has the counter \<open>None\<close> and
  \<open>_parents = None\<close>: its call gets past the join check and raises \<open>TypeError\<close> at once,
  in the loop over \<open>_parents\<close>, leaving the state as the join check left it. A \<open>TaskNode\<close>
  in the same position skips the loop over its parents; with its evaluation parameters
  set and labelled, a judge call that returns, and a cost that can be added when the
  model is native, its call returns normally, the output stored in the node, the entry
  appended to the log, and the children next to be called.
\<close>

theorem root_nodes:
  "(lookup (heap st) n = Some c \<and> indegree c = None
      \<and> (node c = BinaryJudgementNode b \<and> b_parents b = None
          \<or> node c = NonBinaryJudgementNode nb \<and> n_parents nb = None) \<longrightarrow>
      visit env st n d = (Some TypeError, join st n c, []))
   \<and> (lookup (heap st) n = Some c \<and> indegree c = None
        \<and> node c = TaskNode t \<and> t_parents t = None
        \<and> t_evaluation_params t = Some params \<and> params_text env [] params = Inr ctx
        \<and> model_generate env (model_calls (metric st)) (generate_task_output env (t_instructions t) ctx)
             = Inr (res, cost)
        \<and> (using_native_model (metric st) \<longrightarrow> evaluation_cost (metric st) \<noteq> None) \<longrightarrow>
        (\<exists>st' entry. visit env st n d = (None, st', t_children t)
           \<and> lookup (heap st') n = Some \<lparr>indegree = Some 0, node = TaskNode (t\<lparr>t_output := Some res\<rparr>)\<rparr>
           \<and> construct_node_verbose_log (TaskNode (t\<lparr>t_output := Some res\<rparr>)) d = Inr entry
           \<and> verbose_steps (metric st') = verbose_steps (metric st) @ [entry]))"
proof (intro conjI impI)
  assume a: "lookup (heap st) n = Some c \<and> indegree c = None
      \<and> (node c = BinaryJudgementNode b \<and> b_parents b = None
          \<or> node c = NonBinaryJudgementNode nb \<and> n_parents nb = None)"
  then have "proceeds c" by (simp add: proceeds_iff)
  with a show "visit env st n d = (Some TypeError, join st n c, [])"
    by (auto simp: visit_def BinaryJudgementNode_execute_def BinaryJudgementNode_body_def
        NonBinaryJudgementNode_execute_def NonBinaryJudgementNode_body_def)
next
  assume a: "lookup (heap st) n = Some c \<and> indegree c = None
        \<and> node c = TaskNode t \<and> t_parents t = None
        \<and> t_evaluation_params t = Some params \<and> params_text env [] params = Inr ctx
        \<and> model_generate env (model_calls (metric st)) (generate_task_output env (t_instructions t) ctx)
             = Inr (res, cost)
        \<and> (using_native_model (metric st) \<longrightarrow> evaluation_cost (metric st) \<noteq> None)"
  then have p: "proceeds c" by (simp add: proceeds_iff)
  from a have n: "n < length (heap st)" and c: "heap st ! n = c"
    by (auto simp: lookup_def split: if_splits)
  obtain entry where e: "construct_node_verbose_log (TaskNode (t\<lparr>t_output := Some res\<rparr>)) d = Inr entry"
    using TaskNode_log_entry by blast
  from a have dc: "decrement_indegree c = c\<lparr>indegree := Some 0\<rparr>"
    by (simp add: decrement_indegree_def)
  define m2 where "m2 = (if using_native_model (metric st)
      then (metric st)\<lparr>model_calls := model_calls (metric st) @ [(generate_task_output env (t_instructions t) ctx, None)],
             evaluation_cost := Some (the (evaluation_cost (metric st)) + cost)\<rparr>
      else (metric st)\<lparr>model_calls := model_calls (metric st) @ [(generate_task_output env (t_instructions t) ctx, None)]\<rparr>)"
  define st' where "st' = \<lparr>heap = (heap st)[n := \<lparr>indegree = Some 0, node = TaskNode (t\<lparr>t_output := Some res\<rparr>)\<rparr>],
      metric = append_log m2 entry\<rparr>"
  from a p e n have "visit env st n d = (None, st', t_children t)"
    by (cases c; cases st)
       (auto simp: visit_def TaskNode_execute_def TaskNode_body_def Let_def call_generate_def add_cost_def
        join_def set_node_def decrement_indegree_def st'_def m2_def
        simp del: construct_node_verbose_log.simps)
  moreover from n have "lookup (heap st') n = Some \<lparr>indegree = Some 0, node = TaskNode (t\<lparr>t_output := Some res\<rparr>)\<rparr>"
    by (simp add: st'_def lookup_def)
  moreover have "verbose_steps (metric st') = verbose_steps (metric st) @ [entry]"
    by (simp add: st'_def m2_def append_log_def)
  ultimately show "\<exists>st' entry. visit env st n d = (None, st', t_children t)
           \<and> lookup (heap st') n = Some \<lparr>indegree = Some 0, node = TaskNode (t\<lparr>t_output := Some res\<rparr>)\<rparr>
           \<and> construct_node_verbose_log (TaskNode (t\<lparr>t_output := Some res\<rparr>)) d = Inr entry
           \<and> verbose_steps (metric st') = verbose_steps (metric st) @ [entry]"
    using e by blast
qed

theorem root_nodes_witness:
  "fst (visit example_env lone_judgement 3 0) = Some TypeError
   \<and> metric (fst (snd (visit example_env lone_judgement 3 0))) = example_metric
   \<and> fst (visit example_env lone_judgement 4 0) = Some TypeError
   \<and> (\<exists>st'. visit example_env example_state 3 0 = (None, st', [2])
         \<and> length (verbose_steps (metric st')) = 1)"
proof -
  let ?b = "\<lparr>b_criteria = ''length'', b_children = [0, 1], b_evaluation_params = None,
                       b_verdict = None, b_parents = None\<rparr>"
  let ?nb = "\<lparr>n_criteria = ''tone'', n_children = [0], n_evaluation_params = None,
                       n_verdict = None, n_parents = None, n_verdict_options = Some {''a''}\<rparr>"
  let ?t = "\<lparr>t_instructions = ''summarize'', t_output_label = ''Summary'',
                        t_children = [2], t_evaluation_params = Some [''input''],
                        t_output = None, t_parents = None\<rparr>"
  have h: "lookup (heap lone_judgement) 3 = Some (heap lone_judgement ! 3)"
    "indegree (heap lone_judgement ! 3) = None" "node (heap lone_judgement ! 3) = BinaryJudgementNode ?b"
    "lookup (heap lone_judgement) 4 = Some (heap lone_judgement ! 4)"
    "indegree (heap lone_judgement ! 4) = None" "node (heap lone_judgement ! 4) = NonBinaryJudgementNode ?nb"
    by (simp_all add: lone_judgement_def verdicts_heap_def lookup_def)
  from root_nodes [of lone_judgement 3 "heap lone_judgement ! 3" ?b ?nb example_env 0] h
  have a: "visit example_env lone_judgement 3 0 = (Some TypeError, join lone_judgement 3 (heap lone_judgement ! 3), [])"
    by simp
  from root_nodes [of lone_judgement 4 "heap lone_judgement ! 4" ?b ?nb example_env 0] h
  have b: "visit example_env lone_judgement 4 0 = (Some TypeError, join lone_judgement 4 (heap lone_judgement ! 4), [])"
    by simp
  have e: "lookup (heap example_state) 3 = Some (example_heap ! 3)"
    "indegree (example_heap ! 3) = None" "node (example_heap ! 3) = TaskNode ?t"
    "params_text example_env [] [''input''] = Inr ''Input:\<newline>hello\<newline>''"
    "model_generate example_env (model_calls (metric example_state))
       (generate_task_output example_env ''summarize'' ''Input:\<newline>hello\<newline>'') = Inr (''hi'', 0)"
    "\<not> using_native_model (metric example_state)"
    "verbose_steps (metric example_state) = []"
    by (simp_all add: example_state_def example_heap_def example_env_def example_metric_def lookup_def)
  from root_nodes [of example_state 3 "example_heap ! 3" _ _ example_env 0 ?t "[''input'']"
      "''Input:\<newline>hello\<newline>''" "''hi''" 0] e
  have c: "\<exists>st'. visit example_env example_state 3 0 = (None, st', [2])
         \<and> length (verbose_steps (metric st')) = 1"
    by auto
  from a b c show ?thesis
    by (simp add: join_def lone_judgement_def)
qed

subsection \<open>Each body at most once\<close>

lemma spent_not_enters: "spent st n \<Longrightarrow> \<not> enters st n"
  by (auto simp: spent_def enters_def indegrees_def lookup_def proceeds_iff)

lemma visit_keeps_spent:
  assumes "spent st n"
  shows "spent (fst (snd (visit env st m d))) n"
proof (cases "lookup (heap st) m")
  case None
  with assms show ?thesis by (simp add: visit_dangling)
next
  case (Some c)
  then have m: "m < length (heap st)" and c: "heap st ! m = c"
    by (auto simp: lookup_def split: if_splits)
  have i: "indegrees (fst (snd (visit env st m d))) = (indegrees st)[m := indegree (decrement_indegree c)]"
    by (simp add: visit_indegrees [OF Some] indegrees_join)
  show ?thesis
  proof (cases "m = n")
    case True
    with assms c have "\<exists>k\<le>0. indegree (decrement_indegree c) = Some k"
      by (auto simp: spent_def indegrees_def decrement_indegree_def)
    with assms True show ?thesis
      using i [unfolded True] by (auto simp: spent_def)
  next
    case False
    with assms show ?thesis
      by (simp add: spent_def i)
  qed
qed

lemma visit_spends:
  assumes "enters st n"
  shows "spent (fst (snd (visit env st n d))) n"
proof -
  from assms obtain c where c: "lookup (heap st) n = Some c" and p: "proceeds c"
    by (auto simp: enters_def split: option.splits)
  then have n: "n < length (heap st)"
    by (auto simp: lookup_def split: if_splits)
  have "indegrees (fst (snd (visit env st n d))) = (indegrees st)[n := indegree (decrement_indegree c)]"
    by (simp add: visit_indegrees [OF c] indegrees_join)
  with n p show ?thesis
    by (simp add: spent_def proceeds_def indegrees_def)
qed

lemma run_skips_spent:
  "spent st x \<Longrightarrow> x \<notin> set (snd (snd (run env s st pending)))"
proof (induction env s st pending rule: run.induct)
  case (1 env s st)
  then show ?case by simp
next
  case (2 env s st n d rest)
  obtain r st' cs where v: "visit env st n d = (r, st', cs)"
    by (cases "visit env st n d") auto
  from visit_keeps_spent [OF "2.prems", of env n d] v have sp: "spent st' x" by simp
  from "2.prems" have nx: "enters st n \<Longrightarrow> n \<noteq> x"
    by (auto dest: spent_not_enters)
  show ?case
  proof (cases r)
    case (Some e)
    with v nx show ?thesis by auto
  next
    case None
    with "2.IH" [of r "(st', cs)" st' cs] v sp
    have "x \<notin> set (snd (snd (run env s st' (schedule s (map (\<lambda>c. (c, d + 1)) cs) rest))))"
      by simp
    with v None nx show ?thesis
      by (auto split: prod.splits)
  qed
qed

lemma run_distinct: "distinct (snd (snd (run env s st pending)))"
proof (induction env s st pending rule: run.induct)
  case (1 env s st)
  then show ?case by simp
next
  case (2 env s st n d rest)
  obtain r st' cs where v: "visit env st n d = (r, st', cs)"
    by (cases "visit env st n d") auto
  show ?case
  proof (cases r)
    case (Some e)
    with v show ?thesis by auto
  next
    case None
    with "2.IH" [of r "(st', cs)" st' cs] v
    have d: "distinct (snd (snd (run env s st' (schedule s (map (\<lambda>c. (c, d + 1)) cs) rest))))"
      by simp
    have "n \<notin> set (snd (snd (run env s st' (schedule s (map (\<lambda>c. (c, d + 1)) cs) rest))))"
      if "enters st n"
    proof -
      from visit_spends [OF that, of env d] v have "spent st' n" by simp
      then show ?thesis by (rule run_skips_spent)
    qed
    with v None d show ?thesis
      by (auto split: prod.splits)
  qed
qed

lemma visit_waits_state:
  assumes "lookup (heap st) n = Some c" "indegree c = Some k" "k \<noteq> 1"
  shows "visit env st n d = (None, st\<lparr>heap := (heap st)[n := c\<lparr>indegree := Some (k - 1)\<rparr>]\<rparr>, [])"
proof -
  from assms have "\<not> proceeds c" by (simp add: proceeds_iff)
  from visit_waits [OF assms(1) this] assms(2) show ?thesis
    by (simp add: join_def decrement_indegree_def)
qed

lemma early_visits:
  assumes "lookup (heap st) n = Some c" "indegree c = Some (int N)"
  shows "j < N \<Longrightarrow> ((\<lambda>s. fst (snd (visit env s n d))) ^^ j) st
     = st\<lparr>heap := (heap st)[n := c\<lparr>indegree := Some (int N - int j)\<rparr>]\<rparr>"
proof (induction j)
  case 0
  from assms have "(heap st)[n := c\<lparr>indegree := Some (int N)\<rparr>] = heap st"
    by (cases c) (auto simp: lookup_def list_update_same_conv split: if_splits)
  then show ?case by simp
next
  case (Suc j)
  let ?c = "c\<lparr>indegree := Some (int N - int j)\<rparr>"
  let ?st = "st\<lparr>heap := (heap st)[n := ?c]\<rparr>"
  from assms(1) have n: "n < length (heap st)"
    by (auto simp: lookup_def split: if_splits)
  then have l: "lookup (heap ?st) n = Some ?c"
    by (simp add: lookup_def)
  from Suc.prems have k: "int N - int j \<noteq> 1" by simp
  from Suc have "((\<lambda>s. fst (snd (visit env s n d))) ^^ Suc j) st = fst (snd (visit env ?st n d))"
    by simp
  also from visit_waits_state [OF l _ k, of env d] have "\<dots> = ?st\<lparr>heap := (heap ?st)[n := ?c\<lparr>indegree := Some (int N - int j - 1)\<rparr>]\<rparr>"
    by simp
  finally show ?case by (simp add: algebra_simps)
qed

text \<open>
  C1. A call of a node whose counter is \<open>k\<close>, \<open>k\<close> not \<open>1\<close>, does not get past the join
  check: it returns normally, has changed nothing but the counter, now \<open>k - 1\<close> (no
  output, no log entry), and calls no child; this covers the calls before the last
  arrival (\<open>k > 1\<close>) and the calls after the counter has reached \<open>0\<close> (\<open>k \<le> 0\<close>). So for a
  node registered with \<open>N\<close> edges, the state after \<open>j < N\<close> calls is the first state with
  the counter at \<open>N - j\<close>, and the next call gets past the join check exactly when it is
  the \<open>N\<close>th. In a pass, sequential or parallel, from any state and any calls to make,
  no node gets past its join check twice: the nodes whose body was entered are
  pairwise distinct.
\<close>

theorem join_check_once:
  "(lookup (heap st) n = Some c \<and> indegree c = Some k \<and> k \<noteq> 1 \<longrightarrow>
      \<not> enters st n
      \<and> visit env st n d = (None, st\<lparr>heap := (heap st)[n := c\<lparr>indegree := Some (k - 1)\<rparr>]\<rparr>, []))
   \<and> (lookup (heap st) n = Some c \<and> indegree c = Some (int N) \<and> j < N \<longrightarrow>
        ((\<lambda>s. fst (snd (visit env s n d))) ^^ j) st
          = st\<lparr>heap := (heap st)[n := c\<lparr>indegree := Some (int N - int j)\<rparr>]\<rparr>
        \<and> (enters (((\<lambda>s. fst (snd (visit env s n d))) ^^ j) st) n \<longleftrightarrow> Suc j = N))
   \<and> distinct (snd (snd (run env s st pending)))"
proof (intro conjI impI)
  assume a: "lookup (heap st) n = Some c \<and> indegree c = Some k \<and> k \<noteq> 1"
  then show "\<not> enters st n"
    by (simp add: enters_def proceeds_iff)
  from a show "visit env st n d = (None, st\<lparr>heap := (heap st)[n := c\<lparr>indegree := Some (k - 1)\<rparr>]\<rparr>, [])"
    by (simp add: visit_waits_state)
next
  assume a: "lookup (heap st) n = Some c \<and> indegree c = Some (int N) \<and> j < N"
  then show e: "((\<lambda>s. fst (snd (visit env s n d))) ^^ j) st
          = st\<lparr>heap := (heap st)[n := c\<lparr>indegree := Some (int N - int j)\<rparr>]\<rparr>"
    by (simp add: early_visits)
  from a have "n < length (heap st)"
    by (auto simp: lookup_def split: if_splits)
  with a show "enters (((\<lambda>s. fst (snd (visit env s n d))) ^^ j) st) n \<longleftrightarrow> Suc j = N"
    unfolding e by (auto simp: enters_def lookup_def proceeds_iff)
next
  show "distinct (snd (snd (run env s st pending)))"
    by (rule run_distinct)
qed

lemma diamond_heap_built:
  "(case new_VerdictNode [] (BoolLabel True) (Some 10) None of
      Inr (vt, h1) \<Rightarrow>
        (case new_VerdictNode h1 (BoolLabel False) (Some 0) None of
           Inr (vf1, h2) \<Rightarrow>
             (case new_VerdictNode h2 (BoolLabel False) (Some 2) None of
                Inr (vf2, h3) \<Rightarrow>
                  (case new_BinaryJudgementNode h3 ''length'' [vt, vf1] None of
                     Inr (b1, h4) \<Rightarrow>
                       (case new_BinaryJudgementNode h4 ''tone'' [vt, vf2] None of
                          Inr (b2, h5) \<Rightarrow>
                            (case new_TaskNode h5 ''summarize'' ''Summary'' [b1, b2] (Some [''input'']) of
                               Inr (t, h6) \<Rightarrow> Some (t, h6)
                             | Inl e \<Rightarrow> None)
                        | Inl e \<Rightarrow> None)
                   | Inl e \<Rightarrow> None)
              | Inl e \<Rightarrow> None)
         | Inl e \<Rightarrow> None)
    | Inl e \<Rightarrow> None) = Some (5, diamond_heap)"
  by (simp add: new_VerdictNode_def VerdictNode_post_init_def new_BinaryJudgementNode_def
      BinaryJudgementNode_post_init_def verdicts_of_def verdict_of_def lookup_def
      new_TaskNode_def TaskNode_post_init_def is_VerdictNode_def diamond_heap_def
      increment_indegree_def append_parent_def Let_def nth_append)

lemmas run_eval =
  example_env_def example_metric_def
  visit_def lookup_def join_def proceeds_def decrement_indegree_def enters_def
  TaskNode_execute_def TaskNode_body_def call_generate_def set_node_def append_log_def str_int_def
  BinaryJudgementNode_execute_def BinaryJudgementNode_body_def generate_with_schema_def
  call_generate_schema_def judgement_log_def
  VerdictNode_execute_def VerdictNode_body_def VerdictNode_resolve_def parent_verdict_def Let_def

theorem join_check_once_witness:
  "\<not> enters diamond_state 0
   \<and> visit example_env diamond_state 0 2
       = (None, diamond_state\<lparr>heap := diamond_heap[0 := (diamond_heap ! 0)\<lparr>indegree := Some 1\<rparr>]\<rparr>, [])
   \<and> enters (fst (snd (visit example_env diamond_state 0 2))) 0
   \<and> distinct (snd (snd (execute example_env diamond_state 5 0)))
   \<and> snd (snd (execute example_env diamond_state 5 0)) = [5, 3, 1, 4, 0, 2]
   \<and> snd (snd (a_execute example_env diamond_state 5 0)) = [5, 3, 4, 1, 0, 2]"
proof -
  have h: "lookup (heap diamond_state) 0 = Some (diamond_heap ! 0)"
    "indegree (diamond_heap ! 0) = Some 2" "indegree (diamond_heap ! 0) = Some (int 2)"
    "heap diamond_state = diamond_heap"
    by (simp_all add: diamond_state_def diamond_heap_def lookup_def)
  note T = join_check_once [of diamond_state 0 "diamond_heap ! 0" 2 example_env 2 2 1 Sequential "[(5, 0)]"]
  from T [THEN conjunct1] h
  have a: "\<not> enters diamond_state 0"
    "visit example_env diamond_state 0 2
       = (None, diamond_state\<lparr>heap := diamond_heap[0 := (diamond_heap ! 0)\<lparr>indegree := Some 1\<rparr>]\<rparr>, [])"
    by simp_all
  from T [THEN conjunct2, THEN conjunct1] h
  have "enters (((\<lambda>s. fst (snd (visit example_env s 0 2))) ^^ 1) diamond_state) 0"
    by auto
  then have a': "enters (fst (snd (visit example_env diamond_state 0 2))) 0"
    by simp
  from T [THEN conjunct2, THEN conjunct2]
  have a'': "distinct (snd (snd (execute example_env diamond_state 5 0)))"
    by (simp only: execute_def)
  have b: "snd (snd (execute example_env diamond_state 5 0)) = [5, 3, 1, 4, 0, 2]"
    by (simp add: execute_def diamond_state_def diamond_heap_def run_eval)
  have c: "snd (snd (a_execute example_env diamond_state 5 0)) = [5, 3, 4, 1, 0, 2]"
    by (simp add: a_execute_def diamond_state_def diamond_heap_def run_eval)
  from a a' a'' b c show ?thesis by blast
qed

subsection \<open>Scores\<close>

lemma visit_VerdictNode_resolves:
  assumes "lookup (heap st) n = Some c" "node c = VerdictNode v" "proceeds c"
    and "parent_verdict (heap st) (v_parent v) = Some (Inr (v_verdict v))
         \<or> parent_verdict (heap st) (v_parent v) = None"
  shows "visit env st n d = VerdictNode_resolve env (join st n c) v d"
  using assms
  by (auto simp: visit_def VerdictNode_execute_def VerdictNode_body_def parent_verdict_join)

lemma run_leaf:
  assumes "snd (snd (visit env st n d)) = []"
  shows "fst (snd (run env s st [(n, d)])) = fst (snd (visit env st n d))"
proof -
  obtain r st' cs where v: "visit env st n d = (r, st', cs)"
    by (cases "visit env st n d") auto
  with assms have "cs = []" by simp
  with v show ?thesis
    by (cases r; cases s) simp_all
qed

text \<open>
  C6. Constructing a \<open>VerdictNode\<close> succeeds exactly when one of \<open>score\<close> and \<open>g_eval\<close>
  is given and the other is not, and a given score lies between 0 and 10; otherwise it
  raises \<open>ValueError\<close>. At execution, when the call of a node with a fixed score \<open>s\<close>
  gets past the join check and the gate (the verdict of its judgement parent is its
  label, or its parent is no judgement node), the score of the metric is \<open>s / 10\<close> when
  the call is over, whether it is made on its own or is the whole pass, sequential or
  parallel; so a score of 10 ends as 1 and a score of 0 as 0.
\<close>

theorem VerdictNode_score_range:
  "((\<exists>r. new_VerdictNode h l sc g = Inr r) \<longleftrightarrow>
      (sc = None) \<noteq> (g = None) \<and> (\<forall>s. sc = Some s \<longrightarrow> 0 \<le> s \<and> s \<le> 10))
   \<and> ((\<exists>r. new_VerdictNode h l sc g = Inr r) \<or> new_VerdictNode h l sc g = Inl ValueError)
   \<and> (lookup (heap st) n = Some c \<and> node c = VerdictNode v \<and> proceeds c
        \<and> (parent_verdict (heap st) (v_parent v) = Some (Inr (v_verdict v))
            \<or> parent_verdict (heap st) (v_parent v) = None)
        \<and> v_g_eval v = None \<and> v_score v = Some s \<longrightarrow>
        m_score (metric (fst (snd (visit env st n d)))) = Some (of_int s / 10)
        \<and> m_score (metric (fst (snd (execute env st n d)))) = Some (of_int s / 10)
        \<and> m_score (metric (fst (snd (a_execute env st n d)))) = Some (of_int s / 10))"
proof (intro conjI impI)
  show "(\<exists>r. new_VerdictNode h l sc g = Inr r) \<longleftrightarrow>
      (sc = None) \<noteq> (g = None) \<and> (\<forall>s. sc = Some s \<longrightarrow> 0 \<le> s \<and> s \<le> 10)"
    by (cases sc; cases g) (auto simp: new_VerdictNode_def VerdictNode_post_init_def)
  show "(\<exists>r. new_VerdictNode h l sc g = Inr r) \<or> new_VerdictNode h l sc g = Inl ValueError"
    by (cases sc; cases g) (auto simp: new_VerdictNode_def VerdictNode_post_init_def)
next
  assume a: "lookup (heap st) n = Some c \<and> node c = VerdictNode v \<and> proceeds c
        \<and> (parent_verdict (heap st) (v_parent v) = Some (Inr (v_verdict v))
            \<or> parent_verdict (heap st) (v_parent v) = None)
        \<and> v_g_eval v = None \<and> v_score v = Some s"
  then have v: "visit env st n d = VerdictNode_resolve env (join st n c) v d"
    by (intro visit_VerdictNode_resolves) simp_all
  from a show s: "m_score (metric (fst (snd (visit env st n d)))) = Some (of_int s / 10)"
    unfolding v by (intro VerdictNode_resolve_score) simp
  have l: "snd (snd (visit env st n d)) = []"
    unfolding v by (rule VerdictNode_resolve_leaf)
  from s show "m_score (metric (fst (snd (execute env st n d)))) = Some (of_int s / 10)"
    unfolding execute_def by (simp only: run_leaf [OF l])
  from s show "m_score (metric (fst (snd (a_execute env st n d)))) = Some (of_int s / 10)"
    unfolding a_execute_def by (simp only: run_leaf [OF l])
qed

theorem VerdictNode_score_range_witness:
  "new_VerdictNode [] (BoolLabel True) (Some 11) None = Inl ValueError
   \<and> (\<exists>r. new_VerdictNode [] (BoolLabel True) (Some 10) None = Inr r)
   \<and> (\<exists>r. new_VerdictNode [] (BoolLabel False) (Some 0) None = Inr r)
   \<and> m_score (metric (fst (snd (visit example_env judged_state 0 2)))) = Some 1
   \<and> m_score (metric (fst (snd (execute example_env judged_state 0 2)))) = Some 1
   \<and> m_score (metric (fst (snd (visit example_env loose_verdicts 1 0)))) = Some 0
   \<and> m_score (metric (fst (snd (a_execute example_env loose_verdicts 1 0)))) = Some 0
   \<and> m_score (metric (fst (snd (execute example_env example_state 3 0)))) = Some 1"
proof -
  let ?v10 = "\<lparr>v_verdict = BoolLabel True, v_score = Some 10, v_g_eval = None, v_parent = Some 2\<rparr>"
  let ?v0 = "\<lparr>v_verdict = BoolLabel False, v_score = Some 0, v_g_eval = None, v_parent = None\<rparr>"
  have h: "lookup (heap judged_state) 0 = Some (heap judged_state ! 0)"
    "node (heap judged_state ! 0) = VerdictNode ?v10" "proceeds (heap judged_state ! 0)"
    "parent_verdict (heap judged_state) (Some 2) = Some (Inr (BoolLabel True))"
    "lookup (heap loose_verdicts) 1 = Some (heap loose_verdicts ! 1)"
    "node (heap loose_verdicts ! 1) = VerdictNode ?v0" "proceeds (heap loose_verdicts ! 1)"
    "parent_verdict (heap loose_verdicts) None = None"
    by (simp_all add: judged_state_def example_heap_def loose_verdicts_def verdicts_heap_def
        lookup_def proceeds_def decrement_indegree_def parent_verdict_def)
  from VerdictNode_score_range [of "[]" "BoolLabel True" "Some 11" None
      judged_state 0 "heap judged_state ! 0" ?v10 10 example_env 2] h
  have a: "new_VerdictNode [] (BoolLabel True) (Some 11) None = Inl ValueError"
    and b: "m_score (metric (fst (snd (visit example_env judged_state 0 2)))) = Some 1"
      "m_score (metric (fst (snd (execute example_env judged_state 0 2)))) = Some 1"
    by auto
  from VerdictNode_score_range [of "[]" "BoolLabel True" "Some 10" None
      loose_verdicts 1 "heap loose_verdicts ! 1" ?v0 0 example_env 0] h
  have c: "\<exists>r. new_VerdictNode [] (BoolLabel True) (Some 10) None = Inr r"
    and d: "m_score (metric (fst (snd (visit example_env loose_verdicts 1 0)))) = Some 0"
      "m_score (metric (fst (snd (a_execute example_env loose_verdicts 1 0)))) = Some 0"
    by auto
  from VerdictNode_score_range [of "[]" "BoolLabel False" "Some 0" None]
  have e: "\<exists>r. new_VerdictNode [] (BoolLabel False) (Some 0) None = Inr r"
    by auto
  have f: "m_score (metric (fst (snd (execute example_env example_state 3 0)))) = Some 1"
    by (simp add: execute_def example_state_def example_heap_def run_eval)
  from a b c d e f show ?thesis by blast
qed

subsection \<open>The fallback of a schema-constrained call\<close>

lemma generate_with_schema_calls:
  "model_generate_schema env (model_calls m) prompt sch \<noteq> Inl TypeError \<or> using_native_model m \<Longrightarrow>
   model_calls (snd (generate_with_schema env m prompt sch)) = model_calls m @ [(prompt, Some sch)]"
  by (auto simp: generate_with_schema_def call_generate_schema_def add_cost_def
      split: sum.splits option.splits prod.splits)

lemma generate_with_schema_fallback:
  assumes "\<not> using_native_model m"
    and "model_generate_schema env (model_calls m) prompt sch = Inl TypeError"
  shows "generate_with_schema env m prompt sch =
     (fallback_result env (model_calls m) prompt sch,
      m\<lparr>model_calls := model_calls m @ [(prompt, Some sch), (prompt, None)]\<rparr>)"
  using assms
  by (simp add: generate_with_schema_def call_generate_schema_def call_generate_def
      fallback_result_def split: sum.splits prod.splits)

lemma parents_text_join:
  assumes "lookup (heap st) n = Some c"
  shows "parents_text (heap (join st n c)) sep acc ps = parents_text (heap st) sep acc ps"
  by (simp add: parents_text_blocks parent_block_join [OF assms])

lemma lookup_join_self:
  "lookup (heap st) n = Some c \<Longrightarrow> lookup (heap (join st n c)) n = Some (decrement_indegree c)"
  by (auto simp: lookup_def join_def split: if_splits)

lemma BinaryJudgementNode_fallback:
  assumes c: "lookup (heap st) n = Some c" "node c = BinaryJudgementNode b" "proceeds c"
    and t: "b_parents b = Some ps"
      "judgement_text env (heap st) ''\<newline>\<newline>'' ps (b_evaluation_params b) = Inr ctx"
    and g: "\<not> using_native_model (metric st)"
      "model_generate_schema env (model_calls (metric st))
         (generate_binary_verdict env (b_criteria b) ctx) BinaryJudgementVerdict = Inl TypeError"
  shows "model_calls (metric (fst (snd (visit env st n d))))
      = model_calls (metric st)
        @ [(generate_binary_verdict env (b_criteria b) ctx, Some BinaryJudgementVerdict),
           (generate_binary_verdict env (b_criteria b) ctx, None)]"
    and "fallback_result env (model_calls (metric st))
           (generate_binary_verdict env (b_criteria b) ctx) BinaryJudgementVerdict = Inl e \<Longrightarrow>
         fst (visit env st n d) = Some e
         \<and> lookup (heap (fst (snd (visit env st n d)))) n = Some (decrement_indegree c)"
    and "fallback_result env (model_calls (metric st))
           (generate_binary_verdict env (b_criteria b) ctx) BinaryJudgementVerdict = Inr res \<Longrightarrow>
         lookup (heap (fst (snd (visit env st n d)))) n
           = Some ((decrement_indegree c)\<lparr>node := BinaryJudgementNode (b\<lparr>b_verdict := Some res\<rparr>)\<rparr>)"
proof -
  let ?p = "generate_binary_verdict env (b_criteria b) ctx"
  let ?st1 = "join st n c"
  from c have v: "visit env st n d = BinaryJudgementNode_body env ?st1 n b d"
    by (simp add: visit_def BinaryJudgementNode_execute_def)
  from c(1) have n: "n < length (heap st)"
    by (auto simp: lookup_def split: if_splits)
  have m: "metric ?st1 = metric st" by (simp add: join_def)
  from t(2) have tx: "(case b_evaluation_params b of
        None \<Rightarrow> Inr (parents_text (heap ?st1) ''\<newline>\<newline>'' [] ps)
      | Some params \<Rightarrow> params_text env (parents_text (heap ?st1) ''\<newline>\<newline>'' [] ps) params) = Inr ctx"
    by (simp add: judgement_text_def parents_text_join [OF c(1)] cong: option.case_cong)
  have gw: "generate_with_schema env (metric st) ?p BinaryJudgementVerdict =
     (fallback_result env (model_calls (metric st)) ?p BinaryJudgementVerdict,
      (metric st)\<lparr>model_calls := model_calls (metric st) @ [(?p, Some BinaryJudgementVerdict), (?p, None)]\<rparr>)"
    using g by (rule generate_with_schema_fallback)
  let ?m2 = "(metric st)\<lparr>model_calls := model_calls (metric st) @ [(?p, Some BinaryJudgementVerdict), (?p, None)]\<rparr>"
  have body: "BinaryJudgementNode_body env ?st1 n b d =
     (case fallback_result env (model_calls (metric st)) ?p BinaryJudgementVerdict of
        Inl e \<Rightarrow> (Some e, ?st1\<lparr>metric := ?m2\<rparr>, [])
      | Inr res \<Rightarrow>
          (case construct_node_verbose_log (BinaryJudgementNode (b\<lparr>b_verdict := Some res\<rparr>)) d of
             Inl e \<Rightarrow> (Some e, set_node (?st1\<lparr>metric := ?m2\<rparr>) n (BinaryJudgementNode (b\<lparr>b_verdict := Some res\<rparr>)), [])
           | Inr entry \<Rightarrow>
               (None, (set_node (?st1\<lparr>metric := ?m2\<rparr>) n (BinaryJudgementNode (b\<lparr>b_verdict := Some res\<rparr>)))
                        \<lparr>metric := append_log ?m2 entry\<rparr>, b_children b)))"
    by (simp add: BinaryJudgementNode_body_def t(1) tx m gw Let_def split: sum.splits
        del: construct_node_verbose_log.simps)
  show "model_calls (metric (fst (snd (visit env st n d))))
      = model_calls (metric st) @ [(?p, Some BinaryJudgementVerdict), (?p, None)]"
    unfolding v body
    by (simp add: set_node_def append_log_def split: sum.splits del: construct_node_verbose_log.simps)
  show "fst (visit env st n d) = Some e
         \<and> lookup (heap (fst (snd (visit env st n d)))) n = Some (decrement_indegree c)"
    if "fallback_result env (model_calls (metric st)) ?p BinaryJudgementVerdict = Inl e"
    unfolding v body using that lookup_join_self [OF c(1)]
    by simp
  show "lookup (heap (fst (snd (visit env st n d)))) n
           = Some ((decrement_indegree c)\<lparr>node := BinaryJudgementNode (b\<lparr>b_verdict := Some res\<rparr>)\<rparr>)"
    if "fallback_result env (model_calls (metric st)) ?p BinaryJudgementVerdict = Inr res"
    unfolding v body using that n
    by (simp add: set_node_def lookup_def join_def split: sum.splits
        del: construct_node_verbose_log.simps)
qed

lemma NonBinaryJudgementNode_fallback:
  assumes c: "lookup (heap st) n = Some c" "node c = NonBinaryJudgementNode nb" "proceeds c"
    and t: "n_parents nb = Some ps"
      "judgement_text env (heap st) ''\<newline>'' ps (n_evaluation_params nb) = Inr ctx"
      "n_verdict_options nb = Some options"
    and g: "\<not> using_native_model (metric st)"
      "model_generate_schema env (model_calls (metric st))
         (generate_non_binary_verdict env (n_criteria nb) ctx options)
         (NonBinaryJudgementVerdict options) = Inl TypeError"
  shows "model_calls (metric (fst (snd (visit env st n d))))
      = model_calls (metric st)
        @ [(generate_non_binary_verdict env (n_criteria nb) ctx options, Some (NonBinaryJudgementVerdict options)),
           (generate_non_binary_verdict env (n_criteria nb) ctx options, None)]"
    and "fallback_result env (model_calls (metric st))
           (generate_non_binary_verdict env (n_criteria nb) ctx options)
           (NonBinaryJudgementVerdict options) = Inl e \<Longrightarrow>
         fst (visit env st n d) = Some e
         \<and> lookup (heap (fst (snd (visit env st n d)))) n = Some (decrement_indegree c)"
    and "fallback_result env (model_calls (metric st))
           (generate_non_binary_verdict env (n_criteria nb) ctx options)
           (NonBinaryJudgementVerdict options) = Inr res \<Longrightarrow>
         lookup (heap (fst (snd (visit env st n d)))) n
           = Some ((decrement_indegree c)\<lparr>node := NonBinaryJudgementNode (nb\<lparr>n_verdict := Some res\<rparr>)\<rparr>)"
proof -
  let ?p = "generate_non_binary_verdict env (n_criteria nb) ctx options"
  let ?sch = "NonBinaryJudgementVerdict options"
  let ?st1 = "join st n c"
  from c have v: "visit env st n d = NonBinaryJudgementNode_body env ?st1 n nb d"
    by (simp add: visit_def NonBinaryJudgementNode_execute_def)
  from c(1) have n: "n < length (heap st)"
    by (auto simp: lookup_def split: if_splits)
  have m: "metric ?st1 = metric st" by (simp add: join_def)
  from t(2) have tx: "(case n_evaluation_params nb of
        None \<Rightarrow> Inr (parents_text (heap ?st1) ''\<newline>'' [] ps)
      | Some params \<Rightarrow> params_text env (parents_text (heap ?st1) ''\<newline>'' [] ps) params) = Inr ctx"
    by (simp add: judgement_text_def parents_text_join [OF c(1)] cong: option.case_cong)
  have gw: "generate_with_schema env (metric st) ?p ?sch =
     (fallback_result env (model_calls (metric st)) ?p ?sch,
      (metric st)\<lparr>model_calls := model_calls (metric st) @ [(?p, Some ?sch), (?p, None)]\<rparr>)"
    using g by (rule generate_with_schema_fallback)
  let ?m2 = "(metric st)\<lparr>model_calls := model_calls (metric st) @ [(?p, Some ?sch), (?p, None)]\<rparr>"
  have body: "NonBinaryJudgementNode_body env ?st1 n nb d =
     (case fallback_result env (model_calls (metric st)) ?p ?sch of
        Inl e \<Rightarrow> (Some e, ?st1\<lparr>metric := ?m2\<rparr>, [])
      | Inr res \<Rightarrow>
          (case construct_node_verbose_log (NonBinaryJudgementNode (nb\<lparr>n_verdict := Some res\<rparr>)) d of
             Inl e \<Rightarrow> (Some e, set_node (?st1\<lparr>metric := ?m2\<rparr>) n (NonBinaryJudgementNode (nb\<lparr>n_verdict := Some res\<rparr>)), [])
           | Inr entry \<Rightarrow>
               (None, (set_node (?st1\<lparr>metric := ?m2\<rparr>) n (NonBinaryJudgementNode (nb\<lparr>n_verdict := Some res\<rparr>)))
                        \<lparr>metric := append_log ?m2 entry\<rparr>, n_children nb)))"
    by (simp add: NonBinaryJudgementNode_body_def t(1,3) tx m gw Let_def split: sum.splits
        del: construct_node_verbose_log.simps)
  show "model_calls (metric (fst (snd (visit env st n d))))
      = model_calls (metric st) @ [(?p, Some ?sch), (?p, None)]"
    unfolding v body
    by (simp add: set_node_def append_log_def split: sum.splits del: construct_node_verbose_log.simps)
  show "fst (visit env st n d) = Some e
         \<and> lookup (heap (fst (snd (visit env st n d)))) n = Some (decrement_indegree c)"
    if "fallback_result env (model_calls (metric st)) ?p ?sch = Inl e"
    unfolding v body using that lookup_join_self [OF c(1)]
    by simp
  show "lookup (heap (fst (snd (visit env st n d)))) n
           = Some ((decrement_indegree c)\<lparr>node := NonBinaryJudgementNode (nb\<lparr>n_verdict := Some res\<rparr>)\<rparr>)"
    if "fallback_result env (model_calls (metric st)) ?p ?sch = Inr res"
    unfolding v body using that n
    by (simp add: set_node_def lookup_def join_def split: sum.splits
        del: construct_node_verbose_log.simps)
qed

lemma VerdictNode_generate_reason_fallback:
  assumes "\<not> using_native_model m"
    and "model_generate_schema env (model_calls m)
           (generate_reason env (verbose_steps m) (m_score m) (m_name m)) Reason = Inl TypeError"
  shows "VerdictNode_generate_reason env m =
     ((case fallback_result env (model_calls m)
              (generate_reason env (verbose_steps m) (m_score m) (m_name m)) Reason of
         Inl e \<Rightarrow> Inl e
       | Inr res \<Rightarrow> get_reason (Some res)),
      m\<lparr>model_calls := model_calls m
           @ [(generate_reason env (verbose_steps m) (m_score m) (m_name m), Some Reason),
              (generate_reason env (verbose_steps m) (m_score m) (m_name m), None)]\<rparr>)"
  by (simp add: VerdictNode_generate_reason_def Let_def generate_with_schema_fallback [OF assms]
      split: sum.splits)

text \<open>
  C7. Every schema-constrained call of a judge that is not native goes the same way when
  the call with the schema raises \<open>TypeError\<close>: the judge is called once more, with the
  same prompt and no schema, and never again, so that it has seen exactly these two
  calls; the text it returns is parsed and the schema class built from it. This holds
  of the block itself, of a \<open>BinaryJudgementNode\<close> and of a \<open>NonBinaryJudgementNode\<close> that
  execute, and of \<open>VerdictNode._generate_reason\<close>. Where the extraction succeeds its
  object is the verdict stored in the node (the reason returned), and no \<open>TypeError\<close>
  is passed on; where it fails, the failure is the exception of the call, and the
  node holds no verdict. In every other case (a native model, a call with a schema
  that returns or raises something else) the judge is called once.
\<close>

theorem schema_fallback_once:
  "(\<not> using_native_model m \<and> model_generate_schema env (model_calls m) prompt sch = Inl TypeError \<longrightarrow>
      generate_with_schema env m prompt sch
        = (fallback_result env (model_calls m) prompt sch,
           m\<lparr>model_calls := model_calls m @ [(prompt, Some sch), (prompt, None)]\<rparr>))
   \<and> (using_native_model m \<or> model_generate_schema env (model_calls m) prompt sch \<noteq> Inl TypeError \<longrightarrow>
        model_calls (snd (generate_with_schema env m prompt sch)) = model_calls m @ [(prompt, Some sch)])
   \<and> (lookup (heap st) n = Some c \<and> node c = BinaryJudgementNode b \<and> proceeds c
        \<and> b_parents b = Some ps
        \<and> judgement_text env (heap st) ''\<newline>\<newline>'' ps (b_evaluation_params b) = Inr ctx
        \<and> \<not> using_native_model (metric st)
        \<and> model_generate_schema env (model_calls (metric st))
             (generate_binary_verdict env (b_criteria b) ctx) BinaryJudgementVerdict = Inl TypeError \<longrightarrow>
        model_calls (metric (fst (snd (visit env st n d))))
          = model_calls (metric st)
            @ [(generate_binary_verdict env (b_criteria b) ctx, Some BinaryJudgementVerdict),
               (generate_binary_verdict env (b_criteria b) ctx, None)]
        \<and> (case fallback_result env (model_calls (metric st))
                   (generate_binary_verdict env (b_criteria b) ctx) BinaryJudgementVerdict of
              Inl e \<Rightarrow>
                fst (visit env st n d) = Some e
                \<and> lookup (heap (fst (snd (visit env st n d)))) n = Some (decrement_indegree c)
            | Inr res \<Rightarrow>
                lookup (heap (fst (snd (visit env st n d)))) n
                  = Some ((decrement_indegree c)
                            \<lparr>node := BinaryJudgementNode (b\<lparr>b_verdict := Some res\<rparr>)\<rparr>)))
   \<and> (lookup (heap st) n = Some c \<and> node c = NonBinaryJudgementNode nb \<and> proceeds c
        \<and> n_parents nb = Some ps
        \<and> judgement_text env (heap st) ''\<newline>'' ps (n_evaluation_params nb) = Inr ctx
        \<and> n_verdict_options nb = Some options
        \<and> \<not> using_native_model (metric st)
        \<and> model_generate_schema env (model_calls (metric st))
             (generate_non_binary_verdict env (n_criteria nb) ctx options)
             (NonBinaryJudgementVerdict options) = Inl TypeError \<longrightarrow>
        model_calls (metric (fst (snd (visit env st n d))))
          = model_calls (metric st)
            @ [(generate_non_binary_verdict env (n_criteria nb) ctx options,
                Some (NonBinaryJudgementVerdict options)),
               (generate_non_binary_verdict env (n_criteria nb) ctx options, None)]
        \<and> (case fallback_result env (model_calls (metric st))
                   (generate_non_binary_verdict env (n_criteria nb) ctx options)
                   (NonBinaryJudgementVerdict options) of
              Inl e \<Rightarrow>
                fst (visit env st n d) = Some e
                \<and> lookup (heap (fst (snd (visit env st n d)))) n = Some (decrement_indegree c)
            | Inr res \<Rightarrow>
                lookup (heap (fst (snd (visit env st n d)))) n
                  = Some ((decrement_indegree c)
                            \<lparr>node := NonBinaryJudgementNode (nb\<lparr>n_verdict := Some res\<rparr>)\<rparr>)))
   \<and> (\<not> using_native_model m
        \<and> model_generate_schema env (model_calls m)
             (generate_reason env (verbose_steps m) (m_score m) (m_name m)) Reason = Inl TypeError \<longrightarrow>
        VerdictNode_generate_reason env m
          = ((case fallback_result env (model_calls m)
                    (generate_reason env (verbose_steps m) (m_score m) (m_name m)) Reason of
                Inl e \<Rightarrow> Inl e
              | Inr res \<Rightarrow> get_reason (Some res)),
             m\<lparr>model_calls := model_calls m
                  @ [(generate_reason env (verbose_steps m) (m_score m) (m_name m), Some Reason),
                     (generate_reason env (verbose_steps m) (m_score m) (m_name m), None)]\<rparr>))"
proof (intro conjI impI)
  assume "\<not> using_native_model m \<and> model_generate_schema env (model_calls m) prompt sch = Inl TypeError"
  then show "generate_with_schema env m prompt sch
        = (fallback_result env (model_calls m) prompt sch,
           m\<lparr>model_calls := model_calls m @ [(prompt, Some sch), (prompt, None)]\<rparr>)"
    by (intro generate_with_schema_fallback) simp_all
next
  assume "using_native_model m \<or> model_generate_schema env (model_calls m) prompt sch \<noteq> Inl TypeError"
  then show "model_calls (snd (generate_with_schema env m prompt sch)) = model_calls m @ [(prompt, Some sch)]"
    by (intro generate_with_schema_calls) auto
next
  assume a: "lookup (heap st) n = Some c \<and> node c = BinaryJudgementNode b \<and> proceeds c
        \<and> b_parents b = Some ps
        \<and> judgement_text env (heap st) ''\<newline>\<newline>'' ps (b_evaluation_params b) = Inr ctx
        \<and> \<not> using_native_model (metric st)
        \<and> model_generate_schema env (model_calls (metric st))
             (generate_binary_verdict env (b_criteria b) ctx) BinaryJudgementVerdict = Inl TypeError"
  have f1: "model_calls (metric (fst (snd (visit env st n d))))
          = model_calls (metric st)
            @ [(generate_binary_verdict env (b_criteria b) ctx, Some BinaryJudgementVerdict),
               (generate_binary_verdict env (b_criteria b) ctx, None)]"
    using a by (intro BinaryJudgementNode_fallback(1) [where c = c and ps = ps]) simp_all
  have f2: "fst (visit env st n d) = Some e
         \<and> lookup (heap (fst (snd (visit env st n d)))) n = Some (decrement_indegree c)"
    if "fallback_result env (model_calls (metric st))
           (generate_binary_verdict env (b_criteria b) ctx) BinaryJudgementVerdict = Inl e" for e
    using a that by (intro BinaryJudgementNode_fallback(2) [where c = c and ps = ps and b = b and ctx = ctx]) simp_all
  have f3: "lookup (heap (fst (snd (visit env st n d)))) n
           = Some ((decrement_indegree c)\<lparr>node := BinaryJudgementNode (b\<lparr>b_verdict := Some res\<rparr>)\<rparr>)"
    if "fallback_result env (model_calls (metric st))
           (generate_binary_verdict env (b_criteria b) ctx) BinaryJudgementVerdict = Inr res" for res
    using a that by (intro BinaryJudgementNode_fallback(3) [where c = c and ps = ps and ctx = ctx]) simp_all
  show "model_calls (metric (fst (snd (visit env st n d))))
          = model_calls (metric st)
            @ [(generate_binary_verdict env (b_criteria b) ctx, Some BinaryJudgementVerdict),
               (generate_binary_verdict env (b_criteria b) ctx, None)]"
    by (rule f1)
  show "case fallback_result env (model_calls (metric st))
                   (generate_binary_verdict env (b_criteria b) ctx) BinaryJudgementVerdict of
              Inl e \<Rightarrow>
                fst (visit env st n d) = Some e
                \<and> lookup (heap (fst (snd (visit env st n d)))) n = Some (decrement_indegree c)
            | Inr res \<Rightarrow>
                lookup (heap (fst (snd (visit env st n d)))) n
                  = Some ((decrement_indegree c)
                            \<lparr>node := BinaryJudgementNode (b\<lparr>b_verdict := Some res\<rparr>)\<rparr>)"
    using f2 f3
    by (cases "fallback_result env (model_calls (metric st))
                   (generate_binary_verdict env (b_criteria b) ctx) BinaryJudgementVerdict") simp_all
next
  assume a: "lookup (heap st) n = Some c \<and> node c = NonBinaryJudgementNode nb \<and> proceeds c
        \<and> n_parents nb = Some ps
        \<and> judgement_text env (heap st) ''\<newline>'' ps (n_evaluation_params nb) = Inr ctx
        \<and> n_verdict_options nb = Some options
        \<and> \<not> using_native_model (metric st)
        \<and> model_generate_schema env (model_calls (metric st))
             (generate_non_binary_verdict env (n_criteria nb) ctx options)
             (NonBinaryJudgementVerdict options) = Inl TypeError"
  have f1: "model_calls (metric (fst (snd (visit env st n d))))
          = model_calls (metric st)
            @ [(generate_non_binary_verdict env (n_criteria nb) ctx options,
                Some (NonBinaryJudgementVerdict options)),
               (generate_non_binary_verdict env (n_criteria nb) ctx options, None)]"
    using a by (intro NonBinaryJudgementNode_fallback(1) [where c = c and ps = ps]) simp_all
  have f2: "fst (visit env st n d) = Some e
         \<and> lookup (heap (fst (snd (visit env st n d)))) n = Some (decrement_indegree c)"
    if "fallback_result env (model_calls (metric st))
           (generate_non_binary_verdict env (n_criteria nb) ctx options)
           (NonBinaryJudgementVerdict options) = Inl e" for e
    using a that by (intro NonBinaryJudgementNode_fallback(2) [where c = c and ps = ps and nb = nb and ctx = ctx and options = options]) simp_all
  have f3: "lookup (heap (fst (snd (visit env st n d)))) n
           = Some ((decrement_indegree c)\<lparr>node := NonBinaryJudgementNode (nb\<lparr>n_verdict := Some res\<rparr>)\<rparr>)"
    if "fallback_result env (model_calls (metric st))
           (generate_non_binary_verdict env (n_criteria nb) ctx options)
           (NonBinaryJudgementVerdict options) = Inr res" for res
    using a that by (intro NonBinaryJudgementNode_fallback(3) [where c = c and ps = ps and ctx = ctx and options = options]) simp_all
  show "model_calls (metric (fst (snd (visit env st n d))))
          = model_calls (metric st)
            @ [(generate_non_binary_verdict env (n_criteria nb) ctx options,
                Some (NonBinaryJudgementVerdict options)),
               (generate_non_binary_verdict env (n_criteria nb) ctx options, None)]"
    by (rule f1)
  show "case fallback_result env (model_calls (metric st))
                   (generate_non_binary_verdict env (n_criteria nb) ctx options)
                   (NonBinaryJudgementVerdict options) of
              Inl e \<Rightarrow>
                fst (visit env st n d) = Some e
                \<and> lookup (heap (fst (snd (visit env st n d)))) n = Some (decrement_indegree c)
            | Inr res \<Rightarrow>
                lookup (heap (fst (snd (visit env st n d)))) n
                  = Some ((decrement_indegree c)
                            \<lparr>node := NonBinaryJudgementNode (nb\<lparr>n_verdict := Some res\<rparr>)\<rparr>)"
    using f2 f3
    by (cases "fallback_result env (model_calls (metric st))
                   (generate_non_binary_verdict env (n_criteria nb) ctx options)
                   (NonBinaryJudgementVerdict options)") simp_all
next
  assume "\<not> using_native_model m
        \<and> model_generate_schema env (model_calls m)
             (generate_reason env (verbose_steps m) (m_score m) (m_name m)) Reason = Inl TypeError"
  then show "VerdictNode_generate_reason env m
          = ((case fallback_result env (model_calls m)
                    (generate_reason env (verbose_steps m) (m_score m) (m_name m)) Reason of
                Inl e \<Rightarrow> Inl e
              | Inr res \<Rightarrow> get_reason (Some res)),
             m\<lparr>model_calls := model_calls m
                  @ [(generate_reason env (verbose_steps m) (m_score m) (m_name m), Some Reason),
                     (generate_reason env (verbose_steps m) (m_score m) (m_name m), None)]\<rparr>)"
    by (intro VerdictNode_generate_reason_fallback) simp_all
qed

lemma tone_heap_built:
  "(case new_VerdictNode [] (StrLabel ''a'') (Some 10) None of
      Inr (v1, h1) \<Rightarrow>
        (case new_VerdictNode h1 (StrLabel ''b'') (Some 5) None of
           Inr (v2, h2) \<Rightarrow>
             (case new_VerdictNode h2 (StrLabel ''c'') (Some 0) None of
                Inr (v3, h3) \<Rightarrow>
                  (case new_NonBinaryJudgementNode h3 ''tone'' [v1, v2, v3] None of
                     Inr (j, h4) \<Rightarrow>
                       (case new_TaskNode h4 ''summarize'' ''Summary'' [j] (Some [''input'']) of
                          Inr (t, h5) \<Rightarrow> Some (t, h5)
                        | Inl e \<Rightarrow> None)
                   | Inl e \<Rightarrow> None)
              | Inl e \<Rightarrow> None)
         | Inl e \<Rightarrow> None)
    | Inl e \<Rightarrow> None) = Some (4, tone_heap)"
  by (simp add: new_VerdictNode_def VerdictNode_post_init_def new_NonBinaryJudgementNode_def
      NonBinaryJudgementNode_post_init_def verdict_of_def lookup_def
      new_TaskNode_def TaskNode_post_init_def is_VerdictNode_def tone_heap_def
      increment_indegree_def append_parent_def Let_def nth_append insert_commute)

theorem schema_fallback_once_witness:
  "generate_with_schema generic_env example_metric ''garbled'' Reason
     = (Inl ValueError,
        example_metric\<lparr>model_calls := [(''garbled'', Some Reason), (''garbled'', None)]\<rparr>)
   \<and> model_calls (snd (generate_with_schema example_env example_metric ''p'' Reason))
       = [(''p'', Some Reason)]
   \<and> (\<exists>st p q. visit generic_env example_state 3 0 = (None, st, [2])
        \<and> model_calls (metric st) = [(q, None)]
        \<and> fst (visit generic_env st 2 1) = None
        \<and> model_calls (metric (fst (snd (visit generic_env st 2 1))))
            = [(q, None), (p, Some BinaryJudgementVerdict), (p, None)]
        \<and> lookup (heap (fst (snd (visit generic_env st 2 1)))) 2
            = Some \<lparr>indegree = Some 0,
                    node = BinaryJudgementNode
                             \<lparr>b_criteria = ''length'', b_children = [0, 1],
                              b_evaluation_params = None,
                              b_verdict = Some (VerdictObj (BoolLabel True) ''ok''),
                              b_parents = Some [3]\<rparr>\<rparr>)
   \<and> (\<exists>st p q. visit generic_env tone_state 4 0 = (None, st, [3])
        \<and> model_calls (metric st) = [(q, None)]
        \<and> fst (visit generic_env st 3 1) = Some ValueError
        \<and> model_calls (metric (fst (snd (visit generic_env st 3 1))))
            = [(q, None), (p, Some (NonBinaryJudgementVerdict {''a'', ''b'', ''c''})), (p, None)]
        \<and> lookup (heap (fst (snd (visit generic_env st 3 1)))) 3
            = Some ((tone_heap ! 3)\<lparr>indegree := Some 0\<rparr>))
   \<and> VerdictNode_generate_reason generic_env example_metric
       = (Inr ''ok'', example_metric\<lparr>model_calls := [(''DAG'', Some Reason), (''DAG'', None)]\<rparr>)
   \<and> VerdictNode_generate_reason generic_env (example_metric\<lparr>m_name := ''garbled''\<rparr>)
       = (Inl ValueError,
          example_metric\<lparr>m_name := ''garbled'',
                          model_calls := [(''garbled'', Some Reason), (''garbled'', None)]\<rparr>)"
proof -
  have g: "\<not> using_native_model example_metric"
    "model_calls example_metric = []"
    "\<And>cs p sch. model_generate_schema generic_env cs p sch = Inl TypeError"
    "\<And>steps sc name. generate_reason generic_env steps sc name = name"
    "m_name example_metric = ''DAG''"
    by (simp_all add: example_metric_def generic_env_def example_env_def)
  have fr: "fallback_result generic_env [] ''garbled'' Reason = Inl ValueError"
    "fallback_result generic_env [] ''DAG'' Reason = Inr (ReasonObj ''ok'')"
    by (simp_all add: fallback_result_def generic_env_def example_env_def)
  from schema_fallback_once [of example_metric generic_env "''garbled''" Reason, THEN conjunct1] g fr
  have a: "generate_with_schema generic_env example_metric ''garbled'' Reason
     = (Inl ValueError,
        example_metric\<lparr>model_calls := [(''garbled'', Some Reason), (''garbled'', None)]\<rparr>)"
    by simp
  have "model_generate_schema example_env (model_calls example_metric) ''p'' Reason \<noteq> Inl TypeError"
    by (simp add: example_env_def)
  with schema_fallback_once [of example_metric example_env "''p''" Reason,
      THEN conjunct2, THEN conjunct1] g
  have b: "model_calls (snd (generate_with_schema example_env example_metric ''p'' Reason))
       = [(''p'', Some Reason)]"
    by simp
  from schema_fallback_once [of example_metric generic_env,
      THEN conjunct2, THEN conjunct2, THEN conjunct2, THEN conjunct2] g fr
  have e: "VerdictNode_generate_reason generic_env example_metric
       = (Inr ''ok'', example_metric\<lparr>model_calls := [(''DAG'', Some Reason), (''DAG'', None)]\<rparr>)"
    by simp
  have fr': "fallback_result generic_env (model_calls (example_metric\<lparr>m_name := ''garbled''\<rparr>))
       ''garbled'' Reason = Inl ValueError"
    by (simp add: fallback_result_def generic_env_def example_env_def)
  from schema_fallback_once [of "example_metric\<lparr>m_name := ''garbled''\<rparr>" generic_env,
      THEN conjunct2, THEN conjunct2, THEN conjunct2, THEN conjunct2] g(3,4) fr'
  have f: "VerdictNode_generate_reason generic_env (example_metric\<lparr>m_name := ''garbled''\<rparr>)
       = (Inl ValueError,
          example_metric\<lparr>m_name := ''garbled'',
                          model_calls := [(''garbled'', Some Reason), (''garbled'', None)]\<rparr>)"
    by (simp add: example_metric_def)
  define st1 where "st1 = fst (snd (visit generic_env example_state 3 0))"
  define q1 where "q1 = fst (hd (model_calls (metric st1)))"
  define c1 where "c1 = example_heap ! 2"
  define b1 where "b1 = \<lparr>b_criteria = ''length'', b_children = [0, 1],
                              b_evaluation_params = None,
                              b_verdict = None :: reply option,
                              b_parents = Some [3::nat]\<rparr>"
  define ctx1 where "ctx1 = parents_text (heap st1) ''\<newline>\<newline>'' [] [3]"
  define p1 where "p1 = generate_binary_verdict generic_env ''length'' ctx1"
  have v1: "visit generic_env example_state 3 0 = (None, st1, [2])"
    and m1: "model_calls (metric st1) = [(q1, None)]" "\<not> using_native_model (metric st1)"
    and l1: "lookup (heap st1) 2 = Some c1" "node c1 = BinaryJudgementNode b1" "proceeds c1"
      "b_parents b1 = Some [3]" "b_criteria b1 = ''length''"
      "judgement_text generic_env (heap st1) ''\<newline>\<newline>'' [3] (b_evaluation_params b1) = Inr ctx1"
    unfolding q1_def c1_def b1_def ctx1_def st1_def
    by (simp_all add: example_state_def example_heap_def generic_env_def judgement_text_def run_eval)
  have fr1: "fallback_result generic_env [(q1, None)] p1 BinaryJudgementVerdict
      = Inr (VerdictObj (BoolLabel True) ''ok'')"
    unfolding p1_def ctx1_def st1_def
    by (simp add: fallback_result_def example_state_def example_heap_def generic_env_def run_eval)
  from schema_fallback_once [of _ generic_env _ _ st1 2 c1 b1 "[3]" ctx1 1,
      THEN conjunct2, THEN conjunct2, THEN conjunct1, unfolded l1 m1 g(3), folded p1_def, unfolded fr1]
    l1(3) m1(2)
  have T1: "model_calls (metric (fst (snd (visit generic_env st1 2 1))))
        = [(q1, None), (p1, Some BinaryJudgementVerdict), (p1, None)]"
    "lookup (heap (fst (snd (visit generic_env st1 2 1)))) 2
       = Some ((decrement_indegree c1)
           \<lparr>node := BinaryJudgementNode (b1\<lparr>b_verdict := Some (VerdictObj (BoolLabel True) ''ok'')\<rparr>)\<rparr>)"
    by simp_all
  have n1: "fst (visit generic_env st1 2 1) = None"
    unfolding st1_def
    by (simp add: example_state_def example_heap_def generic_env_def run_eval)
  have c: "\<exists>st p q. visit generic_env example_state 3 0 = (None, st, [2])
        \<and> model_calls (metric st) = [(q, None)]
        \<and> fst (visit generic_env st 2 1) = None
        \<and> model_calls (metric (fst (snd (visit generic_env st 2 1))))
            = [(q, None), (p, Some BinaryJudgementVerdict), (p, None)]
        \<and> lookup (heap (fst (snd (visit generic_env st 2 1)))) 2
            = Some \<lparr>indegree = Some 0,
                    node = BinaryJudgementNode
                             \<lparr>b_criteria = ''length'', b_children = [0, 1],
                              b_evaluation_params = None,
                              b_verdict = Some (VerdictObj (BoolLabel True) ''ok''),
                              b_parents = Some [3]\<rparr>\<rparr>"
    apply (rule exI [of _ st1], rule exI [of _ p1], rule exI [of _ q1])
    apply (simp add: v1 m1 n1 T1)
    apply (simp add: c1_def b1_def example_heap_def decrement_indegree_def)
    done
  define st2 where "st2 = fst (snd (visit generic_env tone_state 4 0))"
  define q2 where "q2 = fst (hd (model_calls (metric st2)))"
  define c2 where "c2 = tone_heap ! 3"
  define b2 where "b2 = \<lparr>n_criteria = ''tone'', n_children = [0, 1, 2],
                         n_evaluation_params = None, n_verdict = None :: reply option,
                         n_parents = Some [4::nat],
                         n_verdict_options = Some {''a'', ''b'', ''c''}\<rparr>"
  define ctx2 where "ctx2 = parents_text (heap st2) ''\<newline>'' [] [4]"
  define p2 where "p2 = generate_non_binary_verdict generic_env ''tone'' ctx2 {''a'', ''b'', ''c''}"
  have v2: "visit generic_env tone_state 4 0 = (None, st2, [3])"
    and m2: "model_calls (metric st2) = [(q2, None)]" "\<not> using_native_model (metric st2)"
    and l2: "lookup (heap st2) 3 = Some c2" "node c2 = NonBinaryJudgementNode b2" "proceeds c2"
      "n_parents b2 = Some [4]" "n_criteria b2 = ''tone''"
      "n_verdict_options b2 = Some {''a'', ''b'', ''c''}"
      "judgement_text generic_env (heap st2) ''\<newline>'' [4] (n_evaluation_params b2) = Inr ctx2"
    unfolding q2_def c2_def b2_def ctx2_def st2_def
    by (simp_all add: tone_state_def tone_heap_def generic_env_def judgement_text_def run_eval)
  have fr2: "fallback_result generic_env [(q2, None)] p2 (NonBinaryJudgementVerdict {''a'', ''b'', ''c''})
      = Inl ValueError"
    unfolding p2_def ctx2_def st2_def
    by (simp add: fallback_result_def tone_state_def tone_heap_def generic_env_def run_eval)
  from schema_fallback_once [of _ generic_env _ _ st2 3 c2 _ "[4]" ctx2 1 b2 "{''a'', ''b'', ''c''}",
      THEN conjunct2, THEN conjunct2, THEN conjunct2, THEN conjunct1,
      unfolded l2 m2 g(3), folded p2_def, unfolded fr2]
    l2(3) m2(2)
  have T2: "model_calls (metric (fst (snd (visit generic_env st2 3 1))))
        = [(q2, None), (p2, Some (NonBinaryJudgementVerdict {''a'', ''b'', ''c''})), (p2, None)]"
    "fst (visit generic_env st2 3 1) = Some ValueError"
    "lookup (heap (fst (snd (visit generic_env st2 3 1)))) 3 = Some (decrement_indegree c2)"
    by simp_all
  have d: "\<exists>st p q. visit generic_env tone_state 4 0 = (None, st, [3])
        \<and> model_calls (metric st) = [(q, None)]
        \<and> fst (visit generic_env st 3 1) = Some ValueError
        \<and> model_calls (metric (fst (snd (visit generic_env st 3 1))))
            = [(q, None), (p, Some (NonBinaryJudgementVerdict {''a'', ''b'', ''c''})), (p, None)]
        \<and> lookup (heap (fst (snd (visit generic_env st 3 1)))) 3
            = Some ((tone_heap ! 3)\<lparr>indegree := Some 0\<rparr>)"
    apply (rule exI [of _ st2], rule exI [of _ p2], rule exI [of _ q2])
    apply (simp add: v2 m2 T2)
    apply (simp add: c2_def tone_heap_def decrement_indegree_def)
    done
  from a b c d e f show ?thesis by blast
qed

subsection \<open>Sequential and parallel passes\<close>



lemma fork_heap_built:
  "(case new_VerdictNode [] (BoolLabel True) (Some 10) None of
      Inr (v1, h1) \<Rightarrow>
   (case new_VerdictNode h1 (BoolLabel False) (Some 0) None of
      Inr (v2, h2) \<Rightarrow>
   (case new_VerdictNode h2 (BoolLabel True) (Some 5) None of
      Inr (v3, h3) \<Rightarrow>
   (case new_VerdictNode h3 (BoolLabel False) (Some 0) None of
      Inr (v4, h4) \<Rightarrow>
   (case new_BinaryJudgementNode h4 ''length'' [v1, v2] None of
      Inr (b1, h5) \<Rightarrow>
   (case new_BinaryJudgementNode h5 ''tone'' [v3, v4] None of
      Inr (b2, h6) \<Rightarrow>
   (case new_TaskNode h6 ''rewrite'' ''Rewrite'' [b2] (Some [''input'']) of
      Inr (t1, h7) \<Rightarrow>
   (case new_TaskNode h7 ''summarize'' ''Summary'' [t1, b1] (Some [''input'']) of
      Inr (t2, h8) \<Rightarrow> Some (t2, h8)
    | Inl e \<Rightarrow> None)
    | Inl e \<Rightarrow> None)
    | Inl e \<Rightarrow> None)
    | Inl e \<Rightarrow> None)
    | Inl e \<Rightarrow> None)
    | Inl e \<Rightarrow> None)
    | Inl e \<Rightarrow> None)
    | Inl e \<Rightarrow> None) = Some (7, fork_heap)"
  by (simp add: new_VerdictNode_def VerdictNode_post_init_def new_BinaryJudgementNode_def
      BinaryJudgementNode_post_init_def verdicts_of_def verdict_of_def lookup_def
      new_TaskNode_def TaskNode_post_init_def is_VerdictNode_def fork_heap_def
      increment_indegree_def append_parent_def Let_def nth_append)




end
